theory Spec2Isabelle
  imports Main
begin

section \<open>Data model\<close>

text \<open>
  Strings are lists of 8-bit characters, read as code points below 256.  Python's
  integers are unbounded and modelled as \<open>int\<close>; the limit that recent Python versions
  put on the number of digits when converting between \<^verbatim>\<open>int\<close> and \<^verbatim>\<open>str\<close> is not modelled.
\<close>

text \<open>\<^verbatim>\<open>utils/types.py\<close>: the frozen dataclass \<^verbatim>\<open>ProcessedLogLine\<close>.\<close>

record ProcessedLogLine =
  raw :: string
  transformed :: string

text \<open>\<^verbatim>\<open>knowledge/template_store.py\<close>: the dataclass \<^verbatim>\<open>TemplateRecord\<close>.\<close>

record TemplateRecord =
  template_id :: string
  source_id :: string
  regex :: string
  rec_notes :: string
  is_active :: bool

text \<open>
  Python's \<^verbatim>\<open>re\<close> module is a library outside the repository.  It enters every
  definition as a parameter: \<open>re_compile\<close> is \<^verbatim>\<open>re.compile\<close> (\<open>None\<close> when it raises
  \<^verbatim>\<open>re.error\<close>) and \<open>re_fullmatch p s\<close> is \<^verbatim>\<open>p.fullmatch(s)\<close>, giving the
  \<^verbatim>\<open>groupdict()\<close> of the match object, or \<open>None\<close> when the whole of \<open>s\<close> does not match.
  Compiled patterns and match objects are always truthy in Python.
\<close>

type_synonym groupdict = "(string \<times> string option) list"

record 'p re_engine =
  re_compile :: "string \<Rightarrow> 'p option"
  re_fullmatch :: "'p \<Rightarrow> string \<Rightarrow> groupdict option"

datatype error = PatternError | AgentError string | TypeError

text \<open>
  The class \<^verbatim>\<open>TemplateLibrary\<close>.  \<^verbatim>\<open>templates\<close> is an insertion-ordered \<^verbatim>\<open>dict\<close>: an
  association list in insertion order.  \<^verbatim>\<open>_compiled\<close> is only read by key.
\<close>

record 'p TemplateLibrary =
  lib_source_id :: string
  templates :: "(string \<times> TemplateRecord) list"
  compiled :: "string \<Rightarrow> 'p option"
  sequence :: int

text \<open>\<^verbatim>\<open>d[k] = v\<close> on an ordered dict: an existing key keeps its place, a new key goes last.\<close>

fun dict_set :: "('k \<times> 'v) list \<Rightarrow> 'k \<Rightarrow> 'v \<Rightarrow> ('k \<times> 'v) list" where
  "dict_set [] k v = [(k, v)]"
| "dict_set ((k', v') # kvs) k v =
     (if k' = k then (k, v) # kvs else (k', v') # dict_set kvs k v)"

section \<open>Strings and numbers of Python\<close>

text \<open>\<^verbatim>\<open>str.isspace\<close> on code points below 256.\<close>

definition is_space :: "char \<Rightarrow> bool" where
  "is_space c = (let n = (of_char c :: nat) in
     (9 \<le> n \<and> n \<le> 13) \<or> (28 \<le> n \<and> n \<le> 32) \<or> n = 133 \<or> n = 160)"

definition py_strip :: "string \<Rightarrow> string" where
  "py_strip s = rev (dropWhile is_space (rev (dropWhile is_space s)))"

definition is_digit :: "char \<Rightarrow> bool" where
  "is_digit c = (let n = (of_char c :: nat) in 48 \<le> n \<and> n \<le> 57)"

definition digit_val :: "char \<Rightarrow> nat" where
  "digit_val c = of_char c - 48"

definition digit_char :: "nat \<Rightarrow> char" where
  "digit_char d = ''0123456789'' ! d"

text \<open>The decimal digits of a natural number, most significant first.\<close>

fun digits :: "nat \<Rightarrow> string" where
  "digits n = (if n < 10 then [digit_char n] else digits (n div 10) @ [digit_char (n mod 10)])"

text \<open>\<^verbatim>\<open>str(n)\<close> for an integer.\<close>

definition str_int :: "int \<Rightarrow> string" where
  "str_int n = (if n < 0 then CHR ''-'' # digits (nat (- n)) else digits (nat n))"

definition zfill :: "nat \<Rightarrow> string \<Rightarrow> string" where
  "zfill w s = replicate (w - length s) CHR ''0'' @ s"

text \<open>
  The format \<^verbatim>\<open>{n:04d}\<close>: zeros fill the number up to four characters, after the sign
  when there is one; a longer number is written in full.
\<close>

definition fmt04 :: "int \<Rightarrow> string" where
  "fmt04 n = (if n < 0 then CHR ''-'' # zfill 3 (digits (nat (- n))) else zfill 4 (digits (nat n)))"

text \<open>
  The whitespace \<^verbatim>\<open>int(s)\<close> skips around a number.  Below 128 it is what C's \<^verbatim>\<open>isspace\<close>
  accepts, so the separators 28 to 31, which \<^verbatim>\<open>str.strip\<close> removes, are not part of it.
\<close>

definition is_int_space :: "char \<Rightarrow> bool" where
  "is_int_space c = (let n = (of_char c :: nat) in
     (9 \<le> n \<and> n \<le> 13) \<or> n = 32 \<or> n = 133 \<or> n = 160)"

definition int_strip :: "string \<Rightarrow> string" where
  "int_strip s = rev (dropWhile is_int_space (rev (dropWhile is_int_space s)))"

text \<open>
  \<^verbatim>\<open>int(s)\<close> for a string: surrounding whitespace is dropped, one sign is allowed, and the
  rest is decimal digits in which single underscores may separate digits.  \<open>None\<close> is
  \<^verbatim>\<open>ValueError\<close>.
\<close>

fun parse_digits :: "string \<Rightarrow> nat \<Rightarrow> nat option" where
  "parse_digits [] acc = Some acc"
| "parse_digits (c # cs) acc =
     (if is_digit c then parse_digits cs (10 * acc + digit_val c)
      else if c = CHR ''_'' then
        (case cs of
           [] \<Rightarrow> None
         | d # ds \<Rightarrow> if is_digit d then parse_digits ds (10 * acc + digit_val d) else None)
      else None)"

definition parse_nat :: "string \<Rightarrow> nat option" where
  "parse_nat s = (case s of
       [] \<Rightarrow> None
     | d # ds \<Rightarrow> if is_digit d then parse_digits ds (digit_val d) else None)"

definition py_int :: "string \<Rightarrow> int option" where
  "py_int s = (case int_strip s of
       [] \<Rightarrow> None
     | c # cs \<Rightarrow>
         if c = CHR ''+'' then map_option int (parse_nat cs)
         else if c = CHR ''-'' then map_option (\<lambda>n. - int n) (parse_nat cs)
         else map_option int (parse_nat (c # cs)))"

text \<open>\<^verbatim>\<open>s.rsplit("-", 1)[-1]\<close>: what follows the last hyphen, or all of \<open>s\<close> without one.\<close>

definition rsplit_last :: "string \<Rightarrow> string" where
  "rsplit_last s = rev (takeWhile (\<lambda>c. c \<noteq> CHR ''-'') (rev s))"

text \<open>\<^verbatim>\<open>sep.join(xs)\<close>.\<close>

fun join :: "string \<Rightarrow> string list \<Rightarrow> string" where
  "join sep [] = []"
| "join sep [x] = x"
| "join sep (x # y # ys) = x @ sep @ join sep (y # ys)"

section \<open>Pattern store\<close>

definition new_library :: "string \<Rightarrow> 'p TemplateLibrary" where
  "new_library src = \<lparr> lib_source_id = src, templates = [], compiled = (\<lambda>k. None), sequence = 1 \<rparr>"

text \<open>\<^verbatim>\<open>TemplateLibrary.allocate_id\<close>\<close>

definition allocate_id :: "'p TemplateLibrary \<Rightarrow> string \<times> 'p TemplateLibrary" where
  "allocate_id l =
     (lib_source_id l @ ''-'' @ fmt04 (sequence l), l\<lparr>sequence := sequence l + 1\<rparr>)"

text \<open>
  \<^verbatim>\<open>TemplateLibrary.add\<close>.  The method writes the id into the record it was given and puts
  the record into \<^verbatim>\<open>templates\<close> before it compiles the pattern.  The result is the error
  raised, if any, with the record and the library as the call leaves them: both changes
  stay when \<^verbatim>\<open>re.compile\<close> raises.  Without an error the record is also the return value.
\<close>

definition add ::
  "'p re_engine \<Rightarrow> TemplateRecord \<Rightarrow> 'p TemplateLibrary
    \<Rightarrow> error option \<times> TemplateRecord \<times> 'p TemplateLibrary" where
  "add eng r0 l0 =
     (let (r, l1) =
            (if template_id r0 = [] then
               (case allocate_id l0 of (tid, l) \<Rightarrow> (r0\<lparr>template_id := tid\<rparr>, l))
             else (r0, l0));
          l2 = l1\<lparr>templates := dict_set (templates l1) (template_id r) r\<rparr>
      in case re_compile eng (regex r) of
           None \<Rightarrow> (Some PatternError, r, l2)
         | Some p \<Rightarrow> (None, r, l2\<lparr>compiled := (compiled l2)(template_id r \<mapsto> p)\<rparr>))"

text \<open>
  Consecutive calls of \<^verbatim>\<open>add\<close>, one per record, by a caller that catches what a call
  raises: the records as the calls leave them, and the library after the last call.
\<close>

fun add_all ::
  "'p re_engine \<Rightarrow> TemplateRecord list \<Rightarrow> 'p TemplateLibrary \<Rightarrow> TemplateRecord list \<times> 'p TemplateLibrary" where
  "add_all eng [] l = ([], l)"
| "add_all eng (r # rs) l =
     (case add eng r l of
        (err, r', l') \<Rightarrow> (case add_all eng rs l' of (rs', l'') \<Rightarrow> (r' # rs', l'')))"

text \<open>\<^verbatim>\<open>TemplateLibrary.deactivate\<close>\<close>

definition deactivate :: "string \<Rightarrow> 'p TemplateLibrary \<Rightarrow> 'p TemplateLibrary" where
  "deactivate tid l =
     (case map_of (templates l) tid of
        None \<Rightarrow> l
      | Some r \<Rightarrow> l\<lparr>templates := dict_set (templates l) tid (r\<lparr>is_active := False\<rparr>)\<rparr>)"

text \<open>
  \<^verbatim>\<open>TemplateLibrary.match\<close>: the loop over \<^verbatim>\<open>self.templates.items()\<close>, threading the
  cache of compiled patterns, which the loop fills where an entry is missing.
\<close>

fun match_loop ::
  "'p re_engine \<Rightarrow> (string \<times> TemplateRecord) list \<Rightarrow> (string \<Rightarrow> 'p option) \<Rightarrow> string
    \<Rightarrow> (error + (TemplateRecord \<times> groupdict) option) \<times> (string \<Rightarrow> 'p option)" where
  "match_loop eng [] cache text = (Inr None, cache)"
| "match_loop eng ((tid, r) # rest) cache text =
     (if \<not> is_active r then match_loop eng rest cache text
      else case cache tid of
        Some p \<Rightarrow>
          (case re_fullmatch eng p text of
             Some g \<Rightarrow> (Inr (Some (r, g)), cache)
           | None \<Rightarrow> match_loop eng rest cache text)
      | None \<Rightarrow>
          (case re_compile eng (regex r) of
             None \<Rightarrow> (Inl PatternError, cache)
           | Some p \<Rightarrow>
               (case re_fullmatch eng p text of
                  Some g \<Rightarrow> (Inr (Some (r, g)), cache(tid \<mapsto> p))
                | None \<Rightarrow> match_loop eng rest (cache(tid \<mapsto> p)) text)))"

definition match ::
  "'p re_engine \<Rightarrow> 'p TemplateLibrary \<Rightarrow> ProcessedLogLine
    \<Rightarrow> (error + (TemplateRecord \<times> groupdict) option) \<times> 'p TemplateLibrary" where
  "match eng l processed =
     (case match_loop eng (templates l) (compiled l) (transformed processed) of
        (res, cache') \<Rightarrow> (res, l\<lparr>compiled := cache'\<rparr>))"

text \<open>
  \<^verbatim>\<open>TemplateLibrary.__init__\<close> with \<^verbatim>\<open>_load\<close>.  The argument is the list of records that
  \<^verbatim>\<open>TemplateRecord.from_dict\<close> builds from the file, \<open>None\<close> when the file does not exist.
  An exception leaves no library behind.
\<close>

fun load_loop ::
  "'p re_engine \<Rightarrow> TemplateRecord list \<Rightarrow> 'p TemplateLibrary \<Rightarrow> error + 'p TemplateLibrary" where
  "load_loop eng [] l = Inr l"
| "load_loop eng (r # rs) l =
     (case re_compile eng (regex r) of
        None \<Rightarrow> Inl PatternError
      | Some p \<Rightarrow>
          (let l1 = l\<lparr>templates := dict_set (templates l) (template_id r) r,
                      compiled := (compiled l)(template_id r \<mapsto> p)\<rparr>
           in case py_int (rsplit_last (template_id r)) of
                None \<Rightarrow> load_loop eng rs l1
              | Some suffix \<Rightarrow> load_loop eng rs (l1\<lparr>sequence := max (sequence l1) (suffix + 1)\<rparr>)))"

definition init_library ::
  "'p re_engine \<Rightarrow> string \<Rightarrow> TemplateRecord list option \<Rightarrow> error + 'p TemplateLibrary" where
  "init_library eng src file =
     (case file of
        None \<Rightarrow> Inr (new_library src)
      | Some recs \<Rightarrow> load_loop eng recs (new_library src))"

text \<open>What \<^verbatim>\<open>save\<close> writes: every record, active or not, in dict order.\<close>

definition saved_records :: "'p TemplateLibrary \<Rightarrow> TemplateRecord list" where
  "saved_records l = map snd (templates l)"

section \<open>Matching pass\<close>

text \<open>\<^verbatim>\<open>pipeline/matching.py\<close>\<close>

record MatchResult =
  line_number :: int
  result_template_id :: "string option"
  variables :: groupdict
  result_raw :: string

fun match_all_loop ::
  "'p re_engine \<Rightarrow> 'p TemplateLibrary \<Rightarrow> int \<Rightarrow> ProcessedLogLine list \<Rightarrow> MatchResult list
    \<Rightarrow> (error + MatchResult list) \<times> 'p TemplateLibrary" where
  "match_all_loop eng l idx [] results = (Inr results, l)"
| "match_all_loop eng l idx (line # rest) results =
     (case match eng l line of
        (Inl e, l') \<Rightarrow> (Inl e, l')
      | (Inr (Some (record, vars)), l') \<Rightarrow>
          match_all_loop eng l' (idx + 1) rest
            (results @ [\<lparr> line_number = idx, result_template_id = Some (template_id record),
                           variables = vars, result_raw = raw line \<rparr>])
      | (Inr None, l') \<Rightarrow>
          match_all_loop eng l' (idx + 1) rest
            (results @ [\<lparr> line_number = idx, result_template_id = None,
                           variables = [], result_raw = raw line \<rparr>]))"

definition match_all ::
  "'p re_engine \<Rightarrow> 'p TemplateLibrary \<Rightarrow> ProcessedLogLine list
    \<Rightarrow> (error + MatchResult list) \<times> 'p TemplateLibrary" where
  "match_all eng l lines = match_all_loop eng l 1 lines []"

text \<open>The tab-separated file of \<^verbatim>\<open>LogParsingOrchestrator._write_outputs\<close>.\<close>

definition safe_raw :: "string \<Rightarrow> string" where
  "safe_raw s = map (\<lambda>c. if c = CHR 0x09 \<or> c = CHR 0x0A then CHR '' '' else c) s"

definition tsv_row :: "MatchResult \<Rightarrow> string" where
  "tsv_row result =
     str_int (line_number result) @ [CHR 0x09]
       @ (case result_template_id result of None \<Rightarrow> [] | Some t \<Rightarrow> t) @ [CHR 0x09]
       @ safe_raw (result_raw result) @ [CHR 0x0A]"

definition structured_output :: "MatchResult list \<Rightarrow> string" where
  "structured_output matches =
     (''line'' @ [CHR 0x09] @ ''template_id'' @ [CHR 0x09] @ ''raw'' @ [CHR 0x0A])
       @ concat (map tsv_row matches)"

section \<open>Conflict detector\<close>

text \<open>\<^verbatim>\<open>LearningEngine._detect_conflicts\<close>, the loop over \<^verbatim>\<open>library.templates.items()\<close>.\<close>

fun conflicts_loop ::
  "'p re_engine \<Rightarrow> 'p \<Rightarrow> (string \<times> TemplateRecord) list \<Rightarrow> (string \<Rightarrow> ProcessedLogLine option)
    \<Rightarrow> (TemplateRecord \<times> string) list \<Rightarrow> (TemplateRecord \<times> string) list" where
  "conflicts_loop eng pat [] ex acc = acc"
| "conflicts_loop eng pat ((tid, r) # rest) ex acc =
     (if \<not> is_active r then conflicts_loop eng pat rest ex acc
      else case ex tid of
        None \<Rightarrow> conflicts_loop eng pat rest ex acc
      | Some sample \<Rightarrow>
          (case re_fullmatch eng pat (transformed sample) of
             Some g \<Rightarrow> conflicts_loop eng pat rest ex (acc @ [(r, transformed sample)])
           | None \<Rightarrow> conflicts_loop eng pat rest ex acc))"

definition detect_conflicts ::
  "'p re_engine \<Rightarrow> string \<Rightarrow> 'p TemplateLibrary \<Rightarrow> (string \<Rightarrow> ProcessedLogLine option)
    \<Rightarrow> (TemplateRecord \<times> string) list" where
  "detect_conflicts eng rx l ex =
     (case re_compile eng rx of
        None \<Rightarrow> []
      | Some pat \<Rightarrow> conflicts_loop eng pat (templates l) ex [])"

section \<open>Escalation queue and counters\<close>

text \<open>
  The values a JSON document decodes to.  A number is kept as an integer: the code only
  asks of a number whether it is zero, and never whether it has a fraction.
\<close>

datatype json =
  JNull | JBool bool | JNum int | JStr string | JList "json list" | JObj "(string \<times> json) list"

text \<open>Truthiness, as \<^verbatim>\<open>x or []\<close> tests it.\<close>

fun truthy :: "json \<Rightarrow> bool" where
  "truthy JNull = False"
| "truthy (JBool b) = b"
| "truthy (JNum n) = (n \<noteq> 0)"
| "truthy (JStr s) = (s \<noteq> [])"
| "truthy (JList xs) = (xs \<noteq> [])"
| "truthy (JObj kvs) = (kvs \<noteq> [])"

text \<open>\<^verbatim>\<open>TemplateRecord.to_dict\<close>\<close>

definition to_dict :: "TemplateRecord \<Rightarrow> json" where
  "to_dict r = JObj
     [(''template_id'', JStr (template_id r)), (''source_id'', JStr (source_id r)),
      (''regex'', JStr (regex r)), (''notes'', JStr (rec_notes r)),
      (''is_active'', JBool (is_active r))]"

text \<open>\<^verbatim>\<open>interface/interaction_service.py\<close>\<close>

record InteractionTask =
  task_id :: string
  task_type :: string
  description :: string
  payload :: json
  task_status :: string
  history :: "string list"

record InteractionService =
  queue :: "InteractionTask list"
  counter :: int

definition enqueue :: "string \<Rightarrow> string \<Rightarrow> json \<Rightarrow> InteractionService \<Rightarrow> InteractionService" where
  "enqueue ttype descr pl svc =
     svc\<lparr> queue := queue svc @
             [\<lparr> task_id = ''task-'' @ str_int (counter svc), task_type = ttype,
                 description = descr, payload = pl, task_status = ''pending'', history = [] \<rparr>],
          counter := counter svc + 1 \<rparr>"

text \<open>\<^verbatim>\<open>knowledge/metrics.py\<close>: \<^verbatim>\<open>MetricsStore.increment\<close> with one keyword argument.\<close>

record PipelineCounters =
  processed_lines :: int
  matched_lines :: int
  learned_templates :: int
  escalations :: int

definition increment :: "string \<Rightarrow> int \<Rightarrow> PipelineCounters \<Rightarrow> PipelineCounters" where
  "increment key delta c =
     (if key = ''processed_lines'' then c\<lparr>processed_lines := processed_lines c + delta\<rparr>
      else if key = ''matched_lines'' then c\<lparr>matched_lines := matched_lines c + delta\<rparr>
      else if key = ''learned_templates'' then c\<lparr>learned_templates := learned_templates c + delta\<rparr>
      else if key = ''escalations'' then c\<lparr>escalations := escalations c + delta\<rparr>
      else c)"

text \<open>
  \<^verbatim>\<open>sep.join(xs)\<close> on a list decoded from JSON: \<^verbatim>\<open>join\<close> raises \<^verbatim>\<open>TypeError\<close>, here
  \<open>None\<close>, when an item is not a string.
\<close>

fun json_strings :: "json list \<Rightarrow> string list option" where
  "json_strings [] = Some []"
| "json_strings (JStr s # rest) = map_option (\<lambda>ss. s # ss) (json_strings rest)"
| "json_strings (v # rest) = None"

definition join_json :: "string \<Rightarrow> json list \<Rightarrow> string option" where
  "join_json sep xs = map_option (join sep) (json_strings xs)"

section \<open>Collaborators\<close>

text \<open>
  The agents answer from a language model.  Each call is a parameter: it reads the state
  \<open>'w\<close> of the outside world and returns its answer with the world's next state, so
  two calls with the same arguments may answer differently.  \<open>Inl msg\<close> is the call
  raising \<^verbatim>\<open>AgentError(msg)\<close>.
  \<^item> \<open>derive\<close> is \<^verbatim>\<open>TemplateAgent.derive\<close>;
  \<^item> \<open>review\<close> is \<^verbatim>\<open>ValidationAgent.review\<close>; it makes \<^verbatim>\<open>issues\<close> and \<^verbatim>\<open>suggestions\<close> lists, and
    leaves the items of a list as the model sent them, of any JSON type;
  \<^item> \<open>refine\<close> is \<^verbatim>\<open>RepairAgent.refine\<close>;
  \<^item> \<open>adjudicate\<close> is the \<^verbatim>\<open>_call_json\<close> request inside \<^verbatim>\<open>UpdateAgent.resolve_conflict\<close>;
  \<^item> \<open>str_dict\<close> is Python's \<^verbatim>\<open>str\<close> on a non-empty \<^verbatim>\<open>dict\<close>.
\<close>

record TemplateProposal =
  proposal_regex :: string
  proposal_reasoning :: string

record ValidationReport =
  approved :: bool
  issues :: "json list"
  suggestions :: "json list"
  report_reasoning :: json

type_synonym plan = "(string \<times> json) list"

record 'w collaborators =
  derive :: "ProcessedLogLine list \<Rightarrow> string \<Rightarrow> 'w \<Rightarrow> (string + TemplateProposal) \<times> 'w"
  review :: "string \<Rightarrow> ProcessedLogLine \<Rightarrow> string \<Rightarrow> 'w \<Rightarrow> (string + ValidationReport) \<times> 'w"
  refine :: "string \<Rightarrow> json list \<Rightarrow> json list \<Rightarrow> ProcessedLogLine \<Rightarrow> string \<Rightarrow> 'w
               \<Rightarrow> (string + string) \<times> 'w"
  adjudicate :: "TemplateRecord \<Rightarrow> ProcessedLogLine \<Rightarrow> string \<Rightarrow> (TemplateRecord \<times> string) list
               \<Rightarrow> 'w \<Rightarrow> (string + plan) \<times> 'w"
  str_dict :: "(string \<times> json) list \<Rightarrow> string"

section \<open>Decision pipeline\<close>

text \<open>Everything one line's processing can read or change.\<close>

record ('p, 'w) run_state =
  library :: "'p TemplateLibrary"
  examples :: "string \<Rightarrow> ProcessedLogLine option"
  metrics :: PipelineCounters
  interaction :: InteractionService
  world :: 'w

record LearningOutcome =
  status :: string
  outcome_template_id :: "string option"
  detail :: json

text \<open>\<^verbatim>\<open>LearningEngine._escalate\<close>\<close>

definition escalate ::
  "TemplateRecord \<Rightarrow> ProcessedLogLine \<Rightarrow> plan \<Rightarrow> string \<Rightarrow> ('p, 'w) run_state \<Rightarrow> ('p, 'w) run_state" where
  "escalate candidate line pl reason st =
     st\<lparr> metrics := increment ''escalations'' 1 (metrics st),
         interaction := enqueue ''template_conflict'' reason
           (JObj [(''candidate'', to_dict candidate), (''plan'', JObj pl),
                  (''sample'', JStr (transformed line))])
           (interaction st) \<rparr>"

text \<open>\<^verbatim>\<open>UpdateAgent.resolve_conflict\<close>\<close>

definition resolve_conflict ::
  "'w collaborators \<Rightarrow> TemplateRecord \<Rightarrow> ProcessedLogLine \<Rightarrow> string \<Rightarrow> (TemplateRecord \<times> string) list
    \<Rightarrow> ('p, 'w) run_state \<Rightarrow> (string + plan) \<times> ('p, 'w) run_state" where
  "resolve_conflict ag candidate sample context conflicts st =
     (case adjudicate ag candidate sample context conflicts (world st) of
        (Inl msg, w) \<Rightarrow>
          (Inl msg,
           st\<lparr> world := w,
               interaction := enqueue ''template_conflict''
                 ''Conflict resolution failed (invalid JSON)''
                 (JObj [(''candidate'', to_dict candidate), (''sample'', JStr (transformed sample)),
                        (''conflicts'', JList (map (\<lambda>(rec, _). to_dict rec) conflicts))])
                 (interaction st) \<rparr>)
      | (Inr data, w) \<Rightarrow> (Inr data, st\<lparr> world := w \<rparr>))"

text \<open>
  \<^verbatim>\<open>plan.get("replaced_ids") or []\<close>, wrapped into a list by \<^verbatim>\<open>str\<close> when it is not one.
\<close>

definition replaced_id_list :: "'w collaborators \<Rightarrow> plan \<Rightarrow> json list" where
  "replaced_id_list ag pl =
     (case map_of pl ''replaced_ids'' of
        None \<Rightarrow> []
      | Some v \<Rightarrow>
          if \<not> truthy v then []
          else (case v of
              JList xs \<Rightarrow> xs
            | JStr s \<Rightarrow> [JStr s]
            | JNum n \<Rightarrow> [JStr (str_int n)]
            | JBool b \<Rightarrow> [JStr (if b then ''True'' else ''False'')]
            | JObj kvs \<Rightarrow> [JStr (str_dict ag kvs)]
            | JNull \<Rightarrow> []))"

text \<open>
  The loop \<^verbatim>\<open>for template_id in replaced_ids\<close>.  A list or an object cannot be hashed, so
  looking it up in a dict raises \<^verbatim>\<open>TypeError\<close>; any other value that is not a string is
  no key of either dict.
\<close>

fun deactivate_loop ::
  "json list \<Rightarrow> 'p TemplateLibrary \<Rightarrow> (string \<Rightarrow> ProcessedLogLine option)
    \<Rightarrow> error option \<times> 'p TemplateLibrary \<times> (string \<Rightarrow> ProcessedLogLine option)" where
  "deactivate_loop [] l ex = (None, l, ex)"
| "deactivate_loop (JStr tid # rest) l ex = deactivate_loop rest (deactivate tid l) (ex(tid := None))"
| "deactivate_loop (JList xs # rest) l ex = (Some TypeError, l, ex)"
| "deactivate_loop (JObj kvs # rest) l ex = (Some TypeError, l, ex)"
| "deactivate_loop (v # rest) l ex = deactivate_loop rest l ex"

text \<open>The three lines both accepted decisions end with: add, record the example, count.\<close>

definition store_candidate ::
  "'p re_engine \<Rightarrow> string \<Rightarrow> json \<Rightarrow> TemplateRecord \<Rightarrow> ProcessedLogLine \<Rightarrow> ('p, 'w) run_state
    \<Rightarrow> (error + LearningOutcome) \<times> ('p, 'w) run_state" where
  "store_candidate eng st_name dt candidate line st =
     (case add eng candidate (library st) of
        (Some e, stored, l) \<Rightarrow> (Inl e, st\<lparr> library := l \<rparr>)
      | (None, stored, l) \<Rightarrow>
          (Inr \<lparr> status = st_name, outcome_template_id = Some (template_id stored), detail = dt \<rparr>,
           st\<lparr> library := l,
               examples := (examples st)(template_id stored \<mapsto> line),
               metrics := increment ''learned_templates'' 1 (metrics st) \<rparr>))"

text \<open>\<^verbatim>\<open>isinstance(new_regex, str) and new_regex.strip()\<close>\<close>

definition usable_regex :: "json option \<Rightarrow> string option" where
  "usable_regex v =
     (case v of
        Some (JStr s) \<Rightarrow> if py_strip s = [] then None else Some s
      | _ \<Rightarrow> None)"

text \<open>\<^verbatim>\<open>LearningEngine._apply_conflict_plan\<close>\<close>

definition apply_conflict_plan ::
  "'p re_engine \<Rightarrow> 'w collaborators \<Rightarrow> plan \<Rightarrow> TemplateRecord \<Rightarrow> ProcessedLogLine \<Rightarrow> string
    \<Rightarrow> ('p, 'w) run_state \<Rightarrow> (error + LearningOutcome) \<times> ('p, 'w) run_state" where
  "apply_conflict_plan eng ag pl candidate0 line context st =
     (let decision = map_of pl ''decision'';
          reasoning = (case map_of pl ''reasoning'' of None \<Rightarrow> JStr [] | Some v \<Rightarrow> v)
      in case usable_regex (map_of pl ''new_regex'') of
        None \<Rightarrow>
          (Inr \<lparr> status = ''escalated'', outcome_template_id = None,
                 detail = JStr ''conflict plan missing regex'' \<rparr>,
           escalate candidate0 line pl ''missing new_regex in conflict plan'' st)
      | Some new_regex \<Rightarrow>
          (let candidate = candidate0\<lparr> regex := py_strip new_regex \<rparr>
           in case review ag (regex candidate) line context (world st) of
             (Inl msg, w) \<Rightarrow> (Inl (AgentError msg), st\<lparr> world := w \<rparr>)
           | (Inr validation, w) \<Rightarrow>
               (let st1 = st\<lparr> world := w \<rparr>
                in if \<not> approved validation then
                     (Inr \<lparr> status = ''escalated'', outcome_template_id = None,
                            detail = JStr ''validator rejected refined regex'' \<rparr>,
                      escalate candidate line pl ''refined regex rejected by validator'' st1)
                   else if decision = Some (JStr ''replace_conflicting'') then
                     (case deactivate_loop (replaced_id_list ag pl) (library st1) (examples st1) of
                        (Some e, l, ex) \<Rightarrow> (Inl e, st1\<lparr> library := l, examples := ex \<rparr>)
                      | (None, l, ex) \<Rightarrow>
                          store_candidate eng ''replaced'' reasoning candidate line
                            (st1\<lparr> library := l, examples := ex \<rparr>))
                   else if decision = Some (JStr ''refine_candidate'') then
                     store_candidate eng ''refined'' reasoning candidate line st1
                   else
                     (Inr \<lparr> status = ''escalated'', outcome_template_id = None,
                            detail = JStr ''unsupported conflict decision'' \<rparr>,
                      escalate candidate line pl ''unsupported decision'' st1))))"

text \<open>
  \<^verbatim>\<open>LearningEngine.process_line\<close> from the second test of \<^verbatim>\<open>report.approved\<close> on: \<open>rx\<close>
  is the pattern that was reviewed last and \<open>report\<close> its verdict.  In the rejected branch
  the counter is incremented before the issues are joined, so it stays incremented when
  the join raises.
\<close>

definition after_review ::
  "'p re_engine \<Rightarrow> 'w collaborators \<Rightarrow> ProcessedLogLine \<Rightarrow> string \<Rightarrow> TemplateProposal \<Rightarrow> string
    \<Rightarrow> ValidationReport \<Rightarrow> ('p, 'w) run_state \<Rightarrow> (error + LearningOutcome) \<times> ('p, 'w) run_state" where
  "after_review eng ag line context proposal rx report st =
     (if \<not> approved report then
        (let st1 = st\<lparr> metrics := increment ''escalations'' 1 (metrics st) \<rparr>
         in case join_json ''; '' (issues report) of
              None \<Rightarrow> (Inl TypeError, st1)
            | Some text \<Rightarrow>
                (Inr \<lparr> status = ''rejected'', outcome_template_id = None, detail = JStr text \<rparr>,
                 st1))
      else
        (let candidate = \<lparr> template_id = [], source_id = lib_source_id (library st), regex = rx,
                            rec_notes = proposal_reasoning proposal, is_active = True \<rparr>;
             conflicts = detect_conflicts eng rx (library st) (examples st)
         in if conflicts = [] then
              store_candidate eng ''stored'' (JStr ''stored without conflict'') candidate line st
            else
              (case resolve_conflict ag candidate line context conflicts st of
                 (Inl msg, st1) \<Rightarrow>
                   (Inr \<lparr> status = ''escalated'', outcome_template_id = None, detail = JStr msg \<rparr>,
                    escalate candidate line [(''error'', JStr msg)] ''conflict resolution error'' st1)
               | (Inr pl, st1) \<Rightarrow> apply_conflict_plan eng ag pl candidate line context st1)))"

text \<open>
  \<^verbatim>\<open>LearningEngine.process_line\<close>.  The four \<^verbatim>\<open>set_line_context\<close> calls at its start only
  set the prefix of the agents' log lines and are left out.  An \<^verbatim>\<open>AgentError\<close> of
  \<^verbatim>\<open>derive\<close> or \<^verbatim>\<open>review\<close> is not caught here and leaves the method.
\<close>

definition process_line ::
  "'p re_engine \<Rightarrow> 'w collaborators \<Rightarrow> ProcessedLogLine \<Rightarrow> string \<Rightarrow> ('p, 'w) run_state
    \<Rightarrow> (error + LearningOutcome) \<times> ('p, 'w) run_state" where
  "process_line eng ag line context st =
     (case derive ag [line] context (world st) of
        (Inl msg, w1) \<Rightarrow> (Inl (AgentError msg), st\<lparr> world := w1 \<rparr>)
      | (Inr proposal, w1) \<Rightarrow>
          (case review ag (proposal_regex proposal) line context w1 of
             (Inl msg, w2) \<Rightarrow> (Inl (AgentError msg), st\<lparr> world := w2 \<rparr>)
           | (Inr report, w2) \<Rightarrow>
               if \<not> approved report then
                 (case refine ag (proposal_regex proposal) (issues report) (suggestions report)
                         line context w2 of
                    (Inl msg, w3) \<Rightarrow>
                      (Inr \<lparr> status = ''repair_failed'', outcome_template_id = None,
                             detail = JStr msg \<rparr>,
                       st\<lparr> world := w3, metrics := increment ''escalations'' 1 (metrics st) \<rparr>)
                  | (Inr refined_regex, w3) \<Rightarrow>
                      (case review ag refined_regex line context w3 of
                         (Inl msg, w4) \<Rightarrow> (Inl (AgentError msg), st\<lparr> world := w4 \<rparr>)
                       | (Inr report2, w4) \<Rightarrow>
                           after_review eng ag line context proposal refined_regex report2
                             (st\<lparr> world := w4 \<rparr>)))
               else
                 after_review eng ag line context proposal (proposal_regex proposal) report
                   (st\<lparr> world := w2 \<rparr>)))"

section \<open>Run orchestrator\<close>

text \<open>\<^verbatim>\<open>dict.setdefault\<close>\<close>

definition setdefault :: "('k \<Rightarrow> 'v option) \<Rightarrow> 'k \<Rightarrow> 'v \<Rightarrow> ('k \<Rightarrow> 'v option)" where
  "setdefault d k v = (case d k of None \<Rightarrow> d(k \<mapsto> v) | Some old \<Rightarrow> d)"

text \<open>One turn of the phase-1 loop of \<^verbatim>\<open>LogParsingOrchestrator.process\<close>.\<close>

definition phase1_step ::
  "'p re_engine \<Rightarrow> 'w collaborators \<Rightarrow> string \<Rightarrow> ProcessedLogLine \<Rightarrow> ('p, 'w) run_state
    \<Rightarrow> error option \<times> ('p, 'w) run_state" where
  "phase1_step eng ag context line st0 =
     (let st = st0\<lparr> metrics := increment ''processed_lines'' 1 (metrics st0) \<rparr>
      in case match eng (library st) line of
        (Inl e, l) \<Rightarrow> (Some e, st\<lparr> library := l \<rparr>)
      | (Inr (Some (record, vars)), l) \<Rightarrow>
          (None, st\<lparr> library := l,
                     examples := setdefault (examples st) (template_id record) line,
                     metrics := increment ''matched_lines'' 1 (metrics st) \<rparr>)
      | (Inr None, l) \<Rightarrow>
          (case process_line eng ag line context (st\<lparr> library := l \<rparr>) of
             (Inl e, st1) \<Rightarrow> (Some e, st1)
           | (Inr outcome, st1) \<Rightarrow>
               (case outcome_template_id outcome of
                  None \<Rightarrow> (None, st1)
                | Some tid \<Rightarrow>
                    if tid = [] then (None, st1)
                    else (None, st1\<lparr> examples := setdefault (examples st1) tid line \<rparr>))))"

fun phase1 ::
  "'p re_engine \<Rightarrow> 'w collaborators \<Rightarrow> string \<Rightarrow> ProcessedLogLine list \<Rightarrow> ('p, 'w) run_state
    \<Rightarrow> error option \<times> ('p, 'w) run_state" where
  "phase1 eng ag context [] st = (None, st)"
| "phase1 eng ag context (line # rest) st =
     (case phase1_step eng ag context line st of
        (Some e, st1) \<Rightarrow> (Some e, st1)
      | (None, st1) \<Rightarrow> phase1 eng ag context rest st1)"

text \<open>
  Phase 2 of \<^verbatim>\<open>process\<close>: \<^verbatim>\<open>match_all\<close> over every line, then the tab-separated file.
\<close>

definition phase2 ::
  "'p re_engine \<Rightarrow> 'p TemplateLibrary \<Rightarrow> ProcessedLogLine list \<Rightarrow> (error + string) \<times> 'p TemplateLibrary" where
  "phase2 eng l processed =
     (case match_all eng l processed of
        (Inl e, l1) \<Rightarrow> (Inl e, l1)
      | (Inr final_matches, l1) \<Rightarrow> (Inr (structured_output final_matches), l1))"

section \<open>Notions the statements use\<close>

text \<open>
  The compiled pattern \<^verbatim>\<open>match\<close> tests a record with: the cached one, or the record's
  pattern text compiled when the cache has none (\<open>None\<close> when that raises).
\<close>

definition matcher :: "'p re_engine \<Rightarrow> (string \<Rightarrow> 'p option) \<Rightarrow> string \<Rightarrow> TemplateRecord \<Rightarrow> 'p option" where
  "matcher eng cache tid r = (case cache tid of Some p \<Rightarrow> Some p | None \<Rightarrow> re_compile eng (regex r))"

text \<open>
  An entry of \<^verbatim>\<open>templates\<close> that \<^verbatim>\<open>match\<close> passes over: an inactive record, or an active
  one whose compiled pattern does not match the whole text.
\<close>

definition misses :: "'p re_engine \<Rightarrow> (string \<Rightarrow> 'p option) \<Rightarrow> string \<Rightarrow> string \<times> TemplateRecord \<Rightarrow> bool" where
  "misses eng cache text e =
     (if is_active (snd e) then
        (case matcher eng cache (fst e) (snd e) of
           None \<Rightarrow> False
         | Some p \<Rightarrow> re_fullmatch eng p text = None)
      else True)"

section \<open>A small engine for concrete evaluations\<close>

text \<open>
  Compiled patterns are the pattern texts themselves.  The text \<^verbatim>\<open>(\<close> does not compile,
  \<^verbatim>\<open>.*\<close> matches every line, and every other text matches exactly itself, as
  \<^verbatim>\<open>re\<close> does on texts without metacharacters.  There are no named groups.
\<close>

definition lit_engine :: "string re_engine" where
  "lit_engine =
     \<lparr> re_compile = (\<lambda>s. if s = ''('' then None else Some s),
       re_fullmatch = (\<lambda>p s. if p = ''.*'' \<or> p = s then Some [] else None) \<rparr>"

definition mk_line :: "string \<Rightarrow> ProcessedLogLine" where
  "mk_line s = \<lparr> raw = s, transformed = s \<rparr>"

definition mk_record :: "string \<Rightarrow> string \<Rightarrow> bool \<Rightarrow> TemplateRecord" where
  "mk_record tid rx act =
     \<lparr> template_id = tid, source_id = ''src'', regex = rx, rec_notes = '''', is_active = act \<rparr>"

text \<open>A library of source \<^verbatim>\<open>src\<close> with one active and one inactive record.\<close>

definition lib1 :: "string TemplateLibrary" where
  "lib1 =
     \<lparr> lib_source_id = ''src'',
       templates = [(''src-0001'', mk_record ''src-0001'' ''a'' True),
                    (''src-0002'', mk_record ''src-0002'' ''b'' False)],
       compiled = [''src-0001'' \<mapsto> ''a'', ''src-0002'' \<mapsto> ''b''],
       sequence = 3 \<rparr>"

text \<open>Three records, the first inactive; the cache lacks the third pattern.\<close>

definition lib3 :: "string TemplateLibrary" where
  "lib3 =
     \<lparr> lib_source_id = ''src'',
       templates = [(''src-0001'', mk_record ''src-0001'' ''.*'' False),
                    (''src-0002'', mk_record ''src-0002'' ''a'' True),
                    (''src-0003'', mk_record ''src-0003'' ''.*'' True)],
       compiled = [''src-0001'' \<mapsto> ''.*'', ''src-0002'' \<mapsto> ''a''],
       sequence = 4 \<rparr>"

text \<open>The library that loading two records gives: one id ends in a number, one does not.\<close>

definition loaded_lib :: "string TemplateLibrary" where
  "loaded_lib =
     \<lparr> lib_source_id = ''src'',
       templates = [(''src-0007'', mk_record ''src-0007'' ''a'' True),
                    (''src-abc'', mk_record ''src-abc'' ''b'' False)],
       compiled = [''src-0007'' \<mapsto> ''a'', ''src-abc'' \<mapsto> ''b''],
       sequence = 8 \<rparr>"

text \<open>
  Collaborators that answer from a script.  The world is the list of the calls made so
  far; the reviewer's k-th call answers with the k-th verdict of the script, and rejects
  when the script has no more verdicts.
\<close>

record script =
  script_proposal :: string
  script_verdicts :: "bool list"
  script_refined :: "string option"
  script_plan :: "plan option"

definition scripted :: "script \<Rightarrow> string list collaborators" where
  "scripted sc =
     \<lparr> derive = (\<lambda>samples context w.
         (Inr \<lparr> proposal_regex = script_proposal sc, proposal_reasoning = ''why'' \<rparr>,
          w @ [''derive''])),
       review = (\<lambda>rx sample context w.
         (let k = length (filter (\<lambda>c. c = ''review'') w)
          in (Inr \<lparr> approved = (k < length (script_verdicts sc) \<and> script_verdicts sc ! k),
                     issues = [JStr ''too broad''], suggestions = [], report_reasoning = JStr [] \<rparr>,
              w @ [''review'']))),
       refine = (\<lambda>rx iss sug sample context w.
         (case script_refined sc of
            None \<Rightarrow> Inl ''repair agent missing regex after follow-up''
          | Some r \<Rightarrow> Inr r,
          w @ [''refine''])),
       adjudicate = (\<lambda>candidate sample context conflicts w.
         (case script_plan sc of
            None \<Rightarrow> Inl ''LLM failed to provide valid JSON''
          | Some pl \<Rightarrow> Inr pl,
          w @ [''adjudicate''])),
       str_dict = (\<lambda>kvs. ''{...}'') \<rparr>"

text \<open>The state at the start of a run on an empty store of source \<^verbatim>\<open>src\<close>.\<close>

definition st0 :: "(string, string list) run_state" where
  "st0 =
     \<lparr> library = new_library ''src'',
       examples = (\<lambda>k. None),
       metrics = \<lparr> processed_lines = 0, matched_lines = 0, learned_templates = 0, escalations = 0 \<rparr>,
       interaction = \<lparr> queue = [], counter = 1 \<rparr>,
       world = [] \<rparr>"

text \<open>A proposer that answers \<^verbatim>\<open>(\<close> and a reviewer that approves it.\<close>

definition bad_pattern_agents :: "string list collaborators" where
  "bad_pattern_agents =
     scripted \<lparr> script_proposal = ''('', script_verdicts = [True],
                script_refined = None, script_plan = None \<rparr>"

text \<open>
  A reviewer that rejects every pattern and gives the number 1 as its one issue, and a
  repairer that answers \<^verbatim>\<open>b\<close>.
\<close>

definition number_issue_agents :: "string list collaborators" where
  "number_issue_agents =
     (scripted \<lparr> script_proposal = ''a'', script_verdicts = [],
                 script_refined = Some ''b'', script_plan = None \<rparr>)
     \<lparr> review := (\<lambda>rx sample context w.
          (Inr \<lparr> approved = False, issues = [JNum 1], suggestions = [],
                  report_reasoning = JStr [] \<rparr>,
           w @ [''review''])) \<rparr>"

text \<open>
  What escalating a conflict plan \<open>pl\<close> from state \<open>st\<close> leaves: the outcome
  \<^verbatim>\<open>escalated\<close> without a template id, the store and the example cache of \<open>st\<close>, no new
  learned template, one more escalation, and one more pending task at the end of the
  queue, whose payload carries the plan as it came.
\<close>

definition escalation_of ::
  "plan \<Rightarrow> ('p, 'w) run_state \<Rightarrow> (error + LearningOutcome) \<times> ('p, 'w) run_state \<Rightarrow> bool" where
  "escalation_of pl st out =
     ((case fst out of
         Inl e \<Rightarrow> False
       | Inr outcome \<Rightarrow> status outcome = ''escalated'' \<and> outcome_template_id outcome = None)
      \<and> library (snd out) = library st
      \<and> examples (snd out) = examples st
      \<and> learned_templates (metrics (snd out)) = learned_templates (metrics st)
      \<and> escalations (metrics (snd out)) = escalations (metrics st) + 1
      \<and> counter (interaction (snd out)) = counter (interaction st) + 1
      \<and> queue (interaction (snd out)) \<noteq> []
      \<and> butlast (queue (interaction (snd out))) = queue (interaction st)
      \<and> task_type (last (queue (interaction (snd out)))) = ''template_conflict''
      \<and> task_status (last (queue (interaction (snd out)))) = ''pending''
      \<and> (case payload (last (queue (interaction (snd out)))) of
            JObj kvs \<Rightarrow> map_of kvs ''plan'' = Some (JObj pl)
          | _ \<Rightarrow> False))"

text \<open>A reviewer that approves once; the other collaborators are not asked.\<close>

definition approving_agents :: "string list collaborators" where
  "approving_agents =
     scripted \<lparr> script_proposal = ''.*'', script_verdicts = [True],
                script_refined = None, script_plan = None \<rparr>"

text \<open>
  A run in which the template \<^verbatim>\<open>src-0001\<close>, which matches every line, has the line
  \<^verbatim>\<open>first\<close> as its cached example.
\<close>

definition st_seen :: "(string, string list) run_state" where
  "st_seen =
     st0\<lparr> library :=
            \<lparr> lib_source_id = ''src'',
              templates = [(''src-0001'', mk_record ''src-0001'' ''.*'' True)],
              compiled = [''src-0001'' \<mapsto> ''.*''],
              sequence = 2 \<rparr>,
          examples := [''src-0001'' \<mapsto> mk_line ''first''] \<rparr>"

text \<open>
  A run whose store holds the template \<^verbatim>\<open>src-0001\<close> with the example \<^verbatim>\<open>a\<close>; the next id
  is \<^verbatim>\<open>src-0002\<close>.
\<close>

definition st_conflict :: "(string, string list) run_state" where
  "st_conflict =
     st0\<lparr> library :=
            \<lparr> lib_source_id = ''src'',
              templates = [(''src-0001'', mk_record ''src-0001'' ''a'' True)],
              compiled = [''src-0001'' \<mapsto> ''a''],
              sequence = 2 \<rparr>,
          examples := [''src-0001'' \<mapsto> mk_line ''a''] \<rparr>"


definition plan_replace_next :: plan where
  "plan_replace_next =
     [(''decision'', JStr ''replace_conflicting''), (''new_regex'', JStr ''.*''),
      (''replaced_ids'', JList [JStr ''src-0001'', JStr ''src-0002''])]"

text \<open>
  An adjudicator that answers the plan listing \<^verbatim>\<open>src-0001\<close> and \<^verbatim>\<open>src-0002\<close>, after a
  proposer that answers \<^verbatim>\<open>.*\<close> and a reviewer that approves twice.
\<close>

definition replacing_agents :: "string list collaborators" where
  "replacing_agents =
     scripted \<lparr> script_proposal = ''.*'', script_verdicts = [True, True],
                script_refined = None, script_plan = Some plan_replace_next \<rparr>"

text \<open>A plan with a decision that is not one of the two, and a usable pattern.\<close>

definition plan_merge :: plan where
  "plan_merge = [(''decision'', JStr ''merge''), (''new_regex'', JStr ''a'')]"

text \<open>
  A proposer that answers \<^verbatim>\<open>.*\<close>, an adjudicator that answers the plan above, and a
  reviewer that approves its first call and raises \<^verbatim>\<open>AgentError\<close> from the second on.
\<close>

definition review_raises_agents :: "string list collaborators" where
  "review_raises_agents =
     (scripted \<lparr> script_proposal = ''.*'', script_verdicts = [True],
                 script_refined = None, script_plan = Some plan_merge \<rparr>)
     \<lparr> review := (\<lambda>rx sample context w.
          (if ''review'' \<in> set w then Inl ''LLM failed to provide valid JSON after retry''
           else Inr \<lparr> approved = True, issues = [], suggestions = [],
                       report_reasoning = JStr [] \<rparr>,
           w @ [''review''])) \<rparr>"

section \<open>Theorems\<close>

lemma conflicts_loop_set:
  "set (conflicts_loop eng pat ts ex acc) =
     set acc \<union> {(r, e). \<exists>tid s. (tid, r) \<in> set ts \<and> is_active r \<and> ex tid = Some s
                    \<and> e = transformed s \<and> re_fullmatch eng pat e \<noteq> None}"
proof (induction ts arbitrary: acc)
  case Nil
  show ?case by simp
next
  case (Cons a ts)
  obtain tid r where a: "a = (tid, r)" by (cases a)
  show ?case
    unfolding a
    by (auto simp: Cons.IH split: option.splits)
qed

text \<open>
  C1.  The conflict detector returns exactly the active records whose cached example line
  the candidate pattern fully matches, each paired with that line; a candidate that does
  not compile gives the empty list.  The detector is a function of its arguments alone.
\<close>

theorem detect_conflicts_exact:
  "((r, e) \<in> set (detect_conflicts eng rx l ex) \<longleftrightarrow>
      (\<exists>pat tid s. re_compile eng rx = Some pat \<and> (tid, r) \<in> set (templates l) \<and> is_active r
          \<and> ex tid = Some s \<and> e = transformed s \<and> re_fullmatch eng pat e \<noteq> None))
   \<and> (re_compile eng rx = None \<longrightarrow> detect_conflicts eng rx l ex = [])"
proof (cases "re_compile eng rx")
  case None
  then show ?thesis by (simp add: detect_conflicts_def)
next
  case (Some pat)
  then show ?thesis
    by (simp add: detect_conflicts_def conflicts_loop_set)
qed

theorem detect_conflicts_exact_witness:
  "re_compile lit_engine ''('' = None
   \<and> detect_conflicts lit_engine ''('' lib1 [''src-0001'' \<mapsto> mk_line ''a''] = []
   \<and> (mk_record ''src-0001'' ''a'' True, ''a'')
        \<in> set (detect_conflicts lit_engine ''.*'' lib1 [''src-0001'' \<mapsto> mk_line ''a''])"
  using detect_conflicts_exact [of _ _ lit_engine "''(''" lib1 "[''src-0001'' \<mapsto> mk_line ''a'']"]
    detect_conflicts_exact [of "mk_record ''src-0001'' ''a'' True" "''a''" lit_engine "''.*''" lib1
      "[''src-0001'' \<mapsto> mk_line ''a'']"]
  by (simp add: lit_engine_def lib1_def mk_line_def mk_record_def)

subsection \<open>Matching\<close>

lemma match_loop_inactive:
  "\<not> is_active r \<Longrightarrow> match_loop eng ((tid, r) # rest) c text = match_loop eng rest c text"
  by simp

lemma match_loop_cached_hit:
  "is_active r \<Longrightarrow> c tid = Some p \<Longrightarrow> re_fullmatch eng p text = Some g \<Longrightarrow>
     match_loop eng ((tid, r) # rest) c text = (Inr (Some (r, g)), c)"
  by simp

lemma match_loop_cached_miss:
  "is_active r \<Longrightarrow> c tid = Some p \<Longrightarrow> re_fullmatch eng p text = None \<Longrightarrow>
     match_loop eng ((tid, r) # rest) c text = match_loop eng rest c text"
  by simp

lemma match_loop_fail:
  "is_active r \<Longrightarrow> c tid = None \<Longrightarrow> re_compile eng (regex r) = None \<Longrightarrow>
     match_loop eng ((tid, r) # rest) c text = (Inl PatternError, c)"
  by simp

lemma match_loop_fresh_hit:
  "is_active r \<Longrightarrow> c tid = None \<Longrightarrow> re_compile eng (regex r) = Some p \<Longrightarrow>
     re_fullmatch eng p text = Some g \<Longrightarrow>
     match_loop eng ((tid, r) # rest) c text = (Inr (Some (r, g)), c(tid \<mapsto> p))"
  by simp

lemma match_loop_fresh_miss:
  "is_active r \<Longrightarrow> c tid = None \<Longrightarrow> re_compile eng (regex r) = Some p \<Longrightarrow>
     re_fullmatch eng p text = None \<Longrightarrow>
     match_loop eng ((tid, r) # rest) c text = match_loop eng rest (c(tid \<mapsto> p)) text"
  by simp

lemmas match_loop_cases = match_loop_inactive match_loop_cached_hit match_loop_cached_miss
  match_loop_fail match_loop_fresh_hit match_loop_fresh_miss

declare match_loop.simps(2) [simp del]

lemma match_loop_cache_le:
  "match_loop eng ts cache text = (res, cache') \<Longrightarrow> cache \<subseteq>\<^sub>m cache'"
proof (induction ts arbitrary: cache)
  case Nil
  then show ?case by simp
next
  case (Cons a ts)
  obtain tid r where a: "a = (tid, r)" by (cases a)
  note run = Cons.prems [unfolded a]
  show ?case
  proof (cases "is_active r")
    case False
    with run Cons.IH show ?thesis by (simp add: match_loop_inactive)
  next
    case act: True
    show ?thesis
    proof (cases "cache tid")
      case (Some p)
      with run act Cons.IH show ?thesis
        by (cases "re_fullmatch eng p text")
           (simp_all add: match_loop_cached_hit match_loop_cached_miss)
    next
      case None
      have le: "cache \<subseteq>\<^sub>m cache(tid \<mapsto> p)" for p
        using None by (auto simp: map_le_def dom_def)
      show ?thesis
      proof (cases "re_compile eng (regex r)")
        case cn: None
        with run act None show ?thesis by (simp add: match_loop_fail)
      next
        case (Some p)
        show ?thesis
        proof (cases "re_fullmatch eng p text")
          case (Some g)
          with run act None \<open>re_compile eng (regex r) = Some p\<close> le [of p] show ?thesis
            by (simp add: match_loop_fresh_hit)
        next
          case fm: None
          with run act None Some
          have "match_loop eng ts (cache(tid \<mapsto> p)) text = (res, cache')"
            by (simp add: match_loop_fresh_miss)
          from le [of p] Cons.IH [OF this] show ?thesis by (rule map_le_trans)
        qed
      qed
    qed
  qed
qed

lemma match_loop_skip:
  "tid0 \<notin> fst ` set ts \<Longrightarrow>
     fst (match_loop eng ts (cache(tid0 \<mapsto> p)) text) = fst (match_loop eng ts cache text)"
proof (induction ts arbitrary: cache)
  case Nil
  show ?case by simp
next
  case (Cons a ts)
  obtain tid r where a: "a = (tid, r)" by (cases a)
  from Cons.prems a have ne: "tid \<noteq> tid0" and rest: "tid0 \<notin> fst ` set ts" by auto
  have tw: "cache(tid0 \<mapsto> p, tid \<mapsto> q) = cache(tid \<mapsto> q, tid0 \<mapsto> p)" for q
    using ne by (simp add: fun_upd_twist)
  have c: "(cache(tid0 \<mapsto> p)) tid = cache tid" using ne by simp
  show ?case
  proof (cases "is_active r")
    case False
    then show ?thesis unfolding a using Cons.IH [OF rest] by (simp add: match_loop_inactive)
  next
    case act: True
    show ?thesis
    proof (cases "cache tid")
      case (Some q)
      with c have c': "(cache(tid0 \<mapsto> p)) tid = Some q" by simp
      show ?thesis
      proof (cases "re_fullmatch eng q text")
        case None
        show ?thesis unfolding a
          by (simp only: match_loop_cached_miss [where c = "cache(tid0 \<mapsto> p)" and tid = tid, OF act c' None]
                match_loop_cached_miss [where c = cache and tid = tid, OF act Some None] Cons.IH [OF rest])
      next
        case g: (Some g)
        show ?thesis unfolding a
          by (simp only: match_loop_cached_hit [where c = "cache(tid0 \<mapsto> p)" and tid = tid, OF act c' g]
                match_loop_cached_hit [where c = cache and tid = tid, OF act Some g] fst_conv)
      qed
    next
      case None
      with c have c': "(cache(tid0 \<mapsto> p)) tid = None" by simp
      show ?thesis
      proof (cases "re_compile eng (regex r)")
        case cn: None
        show ?thesis unfolding a
          by (simp only: match_loop_fail [where c = "cache(tid0 \<mapsto> p)" and tid = tid, OF act c' cn] match_loop_fail [where c = cache and tid = tid, OF act None cn] fst_conv)
      next
        case (Some q)
        show ?thesis
        proof (cases "re_fullmatch eng q text")
          case fm: None
          show ?thesis unfolding a
            by (simp only: match_loop_fresh_miss [where c = "cache(tid0 \<mapsto> p)" and tid = tid, OF act c' Some fm]
                  match_loop_fresh_miss [where c = cache and tid = tid, OF act None Some fm] tw Cons.IH [OF rest])
        next
          case g: (Some g)
          show ?thesis unfolding a
            by (simp only: match_loop_fresh_hit [where c = "cache(tid0 \<mapsto> p)" and tid = tid, OF act c' Some g]
                  match_loop_fresh_hit [where c = cache and tid = tid, OF act None Some g] fst_conv)
        qed
      qed
    qed
  qed
qed

lemma match_loop_step:
  assumes "tid0 \<notin> fst ` set rest"
  shows "fst (match_loop eng ((tid0, r0) # rest) cache text) =
     (if \<not> is_active r0 then fst (match_loop eng rest cache text)
      else case matcher eng cache tid0 r0 of
        None \<Rightarrow> Inl PatternError
      | Some p \<Rightarrow>
          (case re_fullmatch eng p text of
             Some g \<Rightarrow> Inr (Some (r0, g))
           | None \<Rightarrow> fst (match_loop eng rest cache text)))"
proof (cases "is_active r0")
  case False
  then show ?thesis by (simp add: match_loop_inactive)
next
  case act: True
  show ?thesis
  proof (cases "cache tid0")
    case (Some p)
    then show ?thesis using act
      by (cases "re_fullmatch eng p text")
         (simp_all add: matcher_def match_loop_cached_hit match_loop_cached_miss)
  next
    case None
    show ?thesis
    proof (cases "re_compile eng (regex r0)")
      case cn: None
      then show ?thesis using act None by (simp add: matcher_def match_loop_fail)
    next
      case (Some p)
      then show ?thesis using act None match_loop_skip [OF assms, of eng cache p "text"]
        by (cases "re_fullmatch eng p text")
           (simp_all add: matcher_def match_loop_fresh_hit match_loop_fresh_miss)
    qed
  qed
qed

lemma match_loop_first_hit:
  assumes "distinct (map fst ts)"
  shows "fst (match_loop eng ts cache text) = Inr (Some (r, g)) \<longleftrightarrow>
     (\<exists>pre tid post. ts = pre @ (tid, r) # post \<and> is_active r
         \<and> (\<exists>p. matcher eng cache tid r = Some p \<and> re_fullmatch eng p text = Some g)
         \<and> list_all (misses eng cache text) pre)"
proof -
  define R where "R = (\<lambda>xs. \<exists>pre tid post. xs = pre @ (tid, r) # post \<and> is_active r
         \<and> (\<exists>p. matcher eng cache tid r = Some p \<and> re_fullmatch eng p text = Some g)
         \<and> list_all (misses eng cache text) pre)"
  have "fst (match_loop eng ts cache text) = Inr (Some (r, g)) \<longleftrightarrow> R ts"
    using assms
  proof (induction ts)
    case Nil
    show ?case by (simp add: R_def)
  next
    case (Cons a ts)
    obtain tid0 r0 where a: "a = (tid0, r0)" by (cases a)
    from Cons.prems a have notin: "tid0 \<notin> fst ` set ts" and d: "distinct (map fst ts)" by auto
    note step = match_loop_step [OF notin, of eng r0 cache "text"]
    note IH = Cons.IH [OF d]
    define H where "H \<longleftrightarrow> r = r0 \<and> is_active r0
        \<and> (\<exists>p. matcher eng cache tid0 r0 = Some p \<and> re_fullmatch eng p text = Some g)"
    have split: "R (a # ts) \<longleftrightarrow> H \<or> (misses eng cache text a \<and> R ts)"
    proof
      assume "R (a # ts)"
      then obtain pre tid post where eq: "a # ts = pre @ (tid, r) # post" and act: "is_active r"
        and m: "\<exists>p. matcher eng cache tid r = Some p \<and> re_fullmatch eng p text = Some g"
        and pre: "list_all (misses eng cache text) pre" unfolding R_def by blast
      show "H \<or> (misses eng cache text a \<and> R ts)"
      proof (cases pre)
        case Nil
        with eq a act m show ?thesis by (simp add: H_def)
      next
        case (Cons x pre')
        with eq have "x = a" and "ts = pre' @ (tid, r) # post" by simp_all
        with Cons pre act m show ?thesis unfolding R_def by auto
      qed
    next
      assume "H \<or> (misses eng cache text a \<and> R ts)"
      then show "R (a # ts)"
      proof
        assume H
        then have "a # ts = [] @ (tid0, r) # ts" and "is_active r"
          and "\<exists>p. matcher eng cache tid0 r = Some p \<and> re_fullmatch eng p text = Some g"
          and "list_all (misses eng cache text) []"
          using a by (simp_all add: H_def)
        then show ?thesis unfolding R_def by blast
      next
        assume "misses eng cache text a \<and> R ts"
        then obtain pre tid post where eq: "ts = pre @ (tid, r) # post" and act: "is_active r"
          and m: "\<exists>p. matcher eng cache tid r = Some p \<and> re_fullmatch eng p text = Some g"
          and pre: "list_all (misses eng cache text) pre" and ma: "misses eng cache text a"
          unfolding R_def by blast
        from eq have "a # ts = (a # pre) @ (tid, r) # post" by simp
        moreover from pre ma have "list_all (misses eng cache text) (a # pre)" by simp
        ultimately show ?thesis using act m unfolding R_def by blast
      qed
    qed
    have ma: "misses eng cache text a \<longleftrightarrow>
        (\<not> is_active r0 \<or> (\<exists>p. matcher eng cache tid0 r0 = Some p \<and> re_fullmatch eng p text = None))"
      by (simp add: a misses_def split: option.splits)
    show ?case
      unfolding split ma H_def IH [symmetric] unfolding a step
      by (auto split: option.splits)
  qed
  then show ?thesis by (simp add: R_def)
qed

lemma match_loop_no_hit:
  assumes "distinct (map fst ts)"
  shows "fst (match_loop eng ts cache text) = Inr None \<longleftrightarrow> list_all (misses eng cache text) ts"
  using assms
proof (induction ts)
  case Nil
  show ?case by simp
next
  case (Cons a ts)
  obtain tid0 r0 where a: "a = (tid0, r0)" by (cases a)
  from Cons.prems a have notin: "tid0 \<notin> fst ` set ts" and d: "distinct (map fst ts)" by auto
  show ?case
    unfolding a match_loop_step [OF notin]
    using Cons.IH [OF d] by (auto simp: misses_def split: option.splits)
qed

lemma match_loop_active_only:
  assumes "distinct (map fst ts)"
  shows "fst (match_loop eng (filter (\<lambda>e. is_active (snd e)) ts) cache text)
           = fst (match_loop eng ts cache text)"
  using assms
proof (induction ts)
  case Nil
  show ?case by simp
next
  case (Cons a ts)
  obtain tid0 r0 where a: "a = (tid0, r0)" by (cases a)
  from Cons.prems a have notin: "tid0 \<notin> fst ` set ts" and d: "distinct (map fst ts)" by auto
  from notin have notin': "tid0 \<notin> fst ` set (filter (\<lambda>e. is_active (snd e)) ts)" by auto
  show ?case
  proof (cases "is_active r0")
    case True
    then show ?thesis unfolding a using Cons.IH [OF d]
      by (simp add: match_loop_step [OF notin] match_loop_step [OF notin'] split: option.splits)
  next
    case False
    then show ?thesis unfolding a using Cons.IH [OF d]
      by (simp add: match_loop_step [OF notin])
  qed
qed

lemma match_loop_idem:
  "match_loop eng ts cache text = (res, cache') \<Longrightarrow> match_loop eng ts cache' text = (res, cache')"
proof (induction ts arbitrary: cache)
  case Nil
  then show ?case by simp
next
  case (Cons a ts)
  obtain tid r where a: "a = (tid, r)" by (cases a)
  note run = Cons.prems [unfolded a]
  show ?case
  proof (cases "is_active r")
    case False
    with run Cons.IH show ?thesis unfolding a by (simp add: match_loop_inactive)
  next
    case act: True
    show ?thesis
    proof (cases "cache tid")
      case (Some p)
      show ?thesis
      proof (cases "re_fullmatch eng p text")
        case None
        with run act Some have rest: "match_loop eng ts cache text = (res, cache')"
          by (simp add: match_loop_cached_miss)
        from match_loop_cache_le [OF rest] Some have "cache' tid = Some p"
          by (auto simp: map_le_def dom_def)
        with act None Cons.IH [OF rest] show ?thesis unfolding a
          by (simp add: match_loop_cached_miss)
      next
        case g: (Some g)
        with run act Some show ?thesis unfolding a by (simp add: match_loop_cached_hit)
      qed
    next
      case None
      show ?thesis
      proof (cases "re_compile eng (regex r)")
        case cn: None
        with run act None show ?thesis unfolding a by (simp add: match_loop_fail)
      next
        case (Some p)
        show ?thesis
        proof (cases "re_fullmatch eng p text")
          case fm: None
          with run act None Some
          have rest: "match_loop eng ts (cache(tid \<mapsto> p)) text = (res, cache')"
            by (simp add: match_loop_fresh_miss)
          from match_loop_cache_le [OF rest] have "cache' tid = Some p"
            by (auto simp: map_le_def dom_def)
          with act fm Cons.IH [OF rest] show ?thesis unfolding a
            by (simp add: match_loop_cached_miss)
        next
          case g: (Some g)
          with run act None Some have "res = Inr (Some (r, g))" and "cache' = cache(tid \<mapsto> p)"
            by (simp_all add: match_loop_fresh_hit)
          with act g show ?thesis unfolding a by (simp add: match_loop_cached_hit)
        qed
      qed
    qed
  qed
qed

lemma match_loop_ext:
  "match_loop eng ts cache text = (Inr v, cache') \<Longrightarrow> cache' \<subseteq>\<^sub>m cache''
     \<Longrightarrow> match_loop eng ts cache'' text = (Inr v, cache'')"
proof (induction ts arbitrary: cache)
  case Nil
  then show ?case by simp
next
  case (Cons a ts)
  obtain tid r where a: "a = (tid, r)" by (cases a)
  note run = Cons.prems(1) [unfolded a]
  note le = Cons.prems(2)
  have up: "cache' tid = Some p \<Longrightarrow> cache'' tid = Some p" for p
    using le by (auto simp: map_le_def dom_def)
  show ?case
  proof (cases "is_active r")
    case False
    with run le Cons.IH show ?thesis unfolding a by (simp add: match_loop_inactive)
  next
    case act: True
    show ?thesis
    proof (cases "cache tid")
      case (Some p)
      show ?thesis
      proof (cases "re_fullmatch eng p text")
        case None
        with run act Some have rest: "match_loop eng ts cache text = (Inr v, cache')"
          by (simp add: match_loop_cached_miss)
        from match_loop_cache_le [OF rest] Some have "cache' tid = Some p"
          by (auto simp: map_le_def dom_def)
        from up [OF this] act None Cons.IH [OF rest le] show ?thesis unfolding a
          by (simp add: match_loop_cached_miss)
      next
        case g: (Some g)
        with run act Some have "v = Some (r, g)" and "cache' = cache"
          by (simp_all add: match_loop_cached_hit)
        with up [of p] Some act g show ?thesis unfolding a by (simp add: match_loop_cached_hit)
      qed
    next
      case None
      show ?thesis
      proof (cases "re_compile eng (regex r)")
        case cn: None
        with run act None show ?thesis by (simp add: match_loop_fail)
      next
        case (Some p)
        show ?thesis
        proof (cases "re_fullmatch eng p text")
          case fm: None
          with run act None Some
          have rest: "match_loop eng ts (cache(tid \<mapsto> p)) text = (Inr v, cache')"
            by (simp add: match_loop_fresh_miss)
          from match_loop_cache_le [OF rest] have "cache' tid = Some p"
            by (auto simp: map_le_def dom_def)
          from up [OF this] act fm Cons.IH [OF rest le] show ?thesis unfolding a
            by (simp add: match_loop_cached_miss)
        next
          case g: (Some g)
          with run act None Some have "v = Some (r, g)" and "cache' = cache(tid \<mapsto> p)"
            by (simp_all add: match_loop_fresh_hit)
          with up [of p] act g show ?thesis unfolding a by (simp add: match_loop_cached_hit)
        qed
      qed
    qed
  qed
qed

lemma match_loop_full_cache:
  "list_all (\<lambda>e. cache (fst e) \<noteq> None) ts \<Longrightarrow> snd (match_loop eng ts cache text) = cache"
proof (induction ts)
  case Nil
  show ?case by simp
next
  case (Cons a ts)
  obtain tid r where a: "a = (tid, r)" by (cases a)
  from Cons.prems a obtain p where p: "cache tid = Some p" by auto
  from Cons have IH: "snd (match_loop eng ts cache text) = cache" by simp
  show ?case
  proof (cases "is_active r")
    case False
    with IH show ?thesis unfolding a by (simp add: match_loop_inactive)
  next
    case True
    with IH p show ?thesis unfolding a
      by (cases "re_fullmatch eng p text")
         (simp_all add: match_loop_cached_hit match_loop_cached_miss)
  qed
qed

lemma match_state:
  "\<exists>c. snd (match eng l line) = l\<lparr>compiled := c\<rparr> \<and> compiled l \<subseteq>\<^sub>m c"
proof -
  obtain res c where run: "match_loop eng (templates l) (compiled l) (transformed line) = (res, c)"
    by (cases "match_loop eng (templates l) (compiled l) (transformed line)")
  from match_loop_cache_le [OF run] run show ?thesis by (auto simp: match_def)
qed

lemma match_idem: "match eng (snd (match eng l line)) line = match eng l line"
proof -
  obtain res c where run: "match_loop eng (templates l) (compiled l) (transformed line) = (res, c)"
    by (cases "match_loop eng (templates l) (compiled l) (transformed line)")
  from match_loop_idem [OF run] run show ?thesis by (simp add: match_def)
qed

lemma match_ext:
  assumes "match eng l line = (Inr v, l1)" and "compiled l1 \<subseteq>\<^sub>m c"
  shows "match eng (l\<lparr>compiled := c\<rparr>) line = (Inr v, l\<lparr>compiled := c\<rparr>)"
proof -
  obtain res c1 where run: "match_loop eng (templates l) (compiled l) (transformed line) = (res, c1)"
    by (cases "match_loop eng (templates l) (compiled l) (transformed line)")
  with assms(1) have "res = Inr v" and "l1 = l\<lparr>compiled := c1\<rparr>" by (auto simp: match_def)
  with assms(2) run have "match_loop eng (templates l) c (transformed line) = (Inr v, c)"
    by (auto intro: match_loop_ext)
  then show ?thesis by (simp add: match_def)
qed

lemma match_all_loop_state:
  "match_all_loop eng l idx lines rs = (res, l') \<Longrightarrow>
     \<exists>c. l' = l\<lparr>compiled := c\<rparr> \<and> compiled l \<subseteq>\<^sub>m c"
proof (induction lines arbitrary: l idx rs)
  case Nil
  then have "l' = l\<lparr>compiled := compiled l\<rparr> \<and> compiled l \<subseteq>\<^sub>m compiled l" by simp
  then show ?case by blast
next
  case (Cons line rest)
  obtain r1 l1 where m: "match eng l line = (r1, l1)" by (cases "match eng l line")
  from match_state [of eng l line] m obtain c1 where
    l1: "l1 = l\<lparr>compiled := c1\<rparr>" and le1: "compiled l \<subseteq>\<^sub>m c1" by auto
  show ?case
  proof (cases r1)
    case (Inl e)
    with Cons.prems m have "l' = l1" by simp
    with l1 le1 show ?thesis by blast
  next
    case (Inr v)
    with Cons.prems m obtain rs' where "match_all_loop eng l1 (idx + 1) rest rs' = (res, l')"
      by (cases v) auto
    from Cons.IH [OF this] obtain c where "l' = l1\<lparr>compiled := c\<rparr>" and "compiled l1 \<subseteq>\<^sub>m c"
      by blast
    with l1 le1 have "l' = l\<lparr>compiled := c\<rparr>" and "compiled l \<subseteq>\<^sub>m c"
      by (auto intro: map_le_trans)
    then show ?thesis by blast
  qed
qed

lemma match_all_loop_idem:
  "match_all_loop eng l idx lines rs = (res, l') \<Longrightarrow> match_all_loop eng l' idx lines rs = (res, l')"
proof (induction lines arbitrary: l idx rs)
  case Nil
  then show ?case by simp
next
  case (Cons line rest)
  obtain r1 l1 where m: "match eng l line = (r1, l1)" by (cases "match eng l line")
  from match_state [of eng l line] m obtain c1 where
    l1: "l1 = l\<lparr>compiled := c1\<rparr>" and le1: "compiled l \<subseteq>\<^sub>m c1" by auto
  show ?case
  proof (cases r1)
    case (Inl e)
    with Cons.prems m have "l' = l1" and "res = Inl e" by simp_all
    moreover from match_idem [of eng l line] m Inl have "match eng l1 line = (Inl e, l1)" by simp
    ultimately show ?thesis by simp
  next
    case (Inr v)
    define rs' where "rs' = (case v of
        None \<Rightarrow> rs @ [\<lparr> line_number = idx, result_template_id = None,
                           variables = [], result_raw = raw line \<rparr>]
      | Some (record, vars) \<Rightarrow> rs @ [\<lparr> line_number = idx,
            result_template_id = Some (template_id record), variables = vars, result_raw = raw line \<rparr>])"
    have unf: "match eng l0 line = (Inr v, l2) \<Longrightarrow>
        match_all_loop eng l0 idx (line # rest) rs = match_all_loop eng l2 (idx + 1) rest rs'" for l0 l2
      by (cases v) (auto simp: rs'_def)
    from m Inr have m': "match eng l line = (Inr v, l1)" by simp
    note rest = Cons.prems [unfolded unf [OF m']]
    from match_all_loop_state [OF rest] obtain c where
      l': "l' = l1\<lparr>compiled := c\<rparr>" and le: "compiled l1 \<subseteq>\<^sub>m c" by blast
    from l' l1 have l'2: "l' = l\<lparr>compiled := c\<rparr>" by simp
    from match_ext [OF m' le] have "match eng l' line = (Inr v, l')"
      unfolding l'2 by simp
    from unf [OF this] Cons.IH [OF rest] show ?thesis by simp
  qed
qed

lemma match_full_cache:
  "list_all (\<lambda>e. compiled l (fst e) \<noteq> None) (templates l) \<Longrightarrow> snd (match eng l line) = l"
  using match_loop_full_cache [of "compiled l" "templates l" eng "transformed line"]
  by (cases "match_loop eng (templates l) (compiled l) (transformed line)") (simp add: match_def)

lemma match_all_loop_full_cache:
  "list_all (\<lambda>e. compiled l (fst e) \<noteq> None) (templates l) \<Longrightarrow>
     snd (match_all_loop eng l idx lines rs) = l"
proof (induction lines arbitrary: idx rs)
  case Nil
  show ?case by simp
next
  case (Cons line rest)
  from match_full_cache [OF Cons.prems, of eng line]
  obtain r1 where m: "match eng l line = (r1, l)" by (cases "match eng l line") simp
  show ?case
  proof (cases r1)
    case (Inl e)
    with m show ?thesis by simp
  next
    case (Inr v)
    with m Cons.IH [OF Cons.prems] show ?thesis by (cases v) auto
  qed
qed

text \<open>
  C3.  Phase 2 takes the store and the lines and nothing else: no collaborator, no world
  state.  Running it again on the store it left gives the same per-line results, the same
  tab-separated output and the same store; the records, the id sequence and the source id
  are never changed, and a store whose cache holds a compiled pattern for every record is
  returned exactly as it was.
\<close>

theorem phase2_repeatable:
  "match_all eng (snd (match_all eng l lines)) lines = match_all eng l lines
   \<and> phase2 eng (snd (phase2 eng l lines)) lines = phase2 eng l lines
   \<and> templates (snd (phase2 eng l lines)) = templates l
   \<and> sequence (snd (phase2 eng l lines)) = sequence l
   \<and> lib_source_id (snd (phase2 eng l lines)) = lib_source_id l
   \<and> (list_all (\<lambda>e. compiled l (fst e) \<noteq> None) (templates l) \<longrightarrow> snd (phase2 eng l lines) = l)"
proof -
  obtain res l' where run: "match_all eng l lines = (res, l')" by (cases "match_all eng l lines")
  then have loop: "match_all_loop eng l 1 lines [] = (res, l')" by (simp add: match_all_def)
  from match_all_loop_idem [OF loop] have again: "match_all eng l' lines = (res, l')"
    by (simp add: match_all_def)
  from match_all_loop_state [OF loop] obtain c where l': "l' = l\<lparr>compiled := c\<rparr>" by blast
  have p2: "snd (phase2 eng l lines) = l'"
    using run by (cases res) (simp_all add: phase2_def)
  have "phase2 eng l' lines = phase2 eng l lines"
    using run again by (simp add: phase2_def)
  moreover have "list_all (\<lambda>e. compiled l (fst e) \<noteq> None) (templates l) \<longrightarrow> l' = l"
    using match_all_loop_full_cache [of l eng 1 lines "[]"] loop by simp
  ultimately show ?thesis using run again l' p2 by simp
qed

text \<open>
  C2.  For a store with distinct ids, \<^verbatim>\<open>match\<close> returns record \<open>r\<close> with variables \<open>g\<close>
  exactly when \<open>r\<close> is an active record whose compiled pattern matches the whole
  canonical text with variables \<open>g\<close> and every record inserted before it is inactive or
  fails to match; it returns nothing exactly when every record is inactive or fails to
  match.  Matching again gives the same result and the same store, inactive records have no
  influence on the result, and the records are left as they were.
\<close>

theorem match_first_hit:
  assumes "distinct (map fst (templates l))"
  shows "(fst (match eng l line) = Inr (Some (r, g)) \<longleftrightarrow>
            (\<exists>pre tid post. templates l = pre @ (tid, r) # post \<and> is_active r
               \<and> (\<exists>p. matcher eng (compiled l) tid r = Some p
                      \<and> re_fullmatch eng p (transformed line) = Some g)
               \<and> list_all (misses eng (compiled l) (transformed line)) pre))
       \<and> (fst (match eng l line) = Inr None \<longleftrightarrow>
            list_all (misses eng (compiled l) (transformed line)) (templates l))
       \<and> match eng (snd (match eng l line)) line = match eng l line
       \<and> fst (match eng (l\<lparr>templates := filter (\<lambda>e. is_active (snd e)) (templates l)\<rparr>) line)
            = fst (match eng l line)
       \<and> templates (snd (match eng l line)) = templates l"
proof -
  have fst_match: "fst (match eng l' line) = fst (match_loop eng (templates l') (compiled l') (transformed line))"
    for l' :: "'a TemplateLibrary"
    by (cases "match_loop eng (templates l') (compiled l') (transformed line)") (simp add: match_def)
  have "templates (snd (match eng l line)) = templates l"
    using match_state [of eng l line] by auto
  then show ?thesis
    using match_loop_first_hit [OF assms, of eng "compiled l" "transformed line" r g]
      match_loop_no_hit [OF assms, of eng "compiled l" "transformed line"]
      match_loop_active_only [OF assms, of eng "compiled l" "transformed line"]
      match_idem [of eng l line]
    by (simp add: fst_match)
qed

theorem match_first_hit_witness:
  "distinct (map fst (templates lib3))
   \<and> fst (match lit_engine lib3 (mk_line ''a'')) = Inr (Some (mk_record ''src-0002'' ''a'' True, []))
   \<and> fst (match lit_engine lib3 (mk_line ''b'')) = Inr (Some (mk_record ''src-0003'' ''.*'' True, []))
   \<and> templates (snd (match lit_engine lib3 (mk_line ''b''))) = templates lib3
   \<and> match lit_engine (snd (match lit_engine lib3 (mk_line ''b''))) (mk_line ''b'')
        = match lit_engine lib3 (mk_line ''b'')"
  using match_first_hit [of lib3 lit_engine "mk_line ''a''" "mk_record ''src-0002'' ''a'' True" "[]"]
    match_first_hit [of lib3 lit_engine "mk_line ''b''" "mk_record ''src-0003'' ''.*'' True" "[]"]
  by (simp add: lib3_def lit_engine_def mk_line_def mk_record_def match_def match_loop.simps)

theorem phase2_repeatable_witness:
  "list_all (\<lambda>e. compiled lib1 (fst e) \<noteq> None) (templates lib1)
   \<and> phase2 lit_engine lib1 [mk_line ''a'', mk_line ''zz'']
       = (Inr (''line'' @ [CHR 0x09] @ ''template_id'' @ [CHR 0x09] @ ''raw'' @ [CHR 0x0A]
               @ ''1'' @ [CHR 0x09] @ ''src-0001'' @ [CHR 0x09] @ ''a'' @ [CHR 0x0A]
               @ ''2'' @ [CHR 0x09] @ [CHR 0x09] @ ''zz'' @ [CHR 0x0A]), lib1)"
  using phase2_repeatable [of lit_engine lib1 "[mk_line ''a'', mk_line ''zz'']"]
  by (simp add: lib1_def lit_engine_def mk_line_def mk_record_def match_def match_loop.simps
        phase2_def match_all_def structured_output_def tsv_row_def safe_raw_def str_int_def
        digit_char_def)

subsection \<open>Id allocation\<close>

declare digits.simps [simp del]

lemma digit_char_props:
  assumes "d < 10"
  shows "is_digit (digit_char d)" and "digit_val (digit_char d) = d" and "\<not> is_space (digit_char d)"
    and "digit_char d \<noteq> CHR ''-''" and "digit_char d \<noteq> CHR ''+''"
proof -
  from assms have "d = 0 \<or> d = 1 \<or> d = 2 \<or> d = 3 \<or> d = 4 \<or> d = 5 \<or> d = 6 \<or> d = 7 \<or> d = 8 \<or> d = 9"
    by arith
  then show "is_digit (digit_char d)" and "digit_val (digit_char d) = d" and "\<not> is_space (digit_char d)"
    and "digit_char d \<noteq> CHR ''-''" and "digit_char d \<noteq> CHR ''+''"
    by (auto simp: digit_char_def is_digit_def digit_val_def is_space_def)
qed

lemma digit_char_0: "digit_char 0 = CHR ''0''"
  by (simp add: digit_char_def)

lemma is_digit_0: "is_digit CHR ''0''"
  by (simp add: is_digit_def)

lemma digits_all: "list_all is_digit (digits n)"
proof (induction n rule: digits.induct)
  case (1 n)
  show ?case
  proof (cases "n < 10")
    case True
    then show ?thesis by (subst digits.simps) (simp add: digit_char_props)
  next
    case False
    with 1 have "list_all is_digit (digits (n div 10))" by simp
    moreover have "is_digit (digit_char (n mod 10))" by (simp add: digit_char_props)
    ultimately show ?thesis using False by (subst digits.simps) simp
  qed
qed

lemma digits_nonempty: "digits n \<noteq> []"
  by (subst digits.simps) simp

lemma parse_digits_all:
  "list_all is_digit cs \<Longrightarrow>
     parse_digits cs acc = Some (foldl (\<lambda>a c. 10 * a + digit_val c) acc cs)"
  by (induction cs arbitrary: acc) simp_all

lemma foldl_digits: "foldl (\<lambda>a c. 10 * a + digit_val c) 0 (digits n) = n"
proof (induction n rule: digits.induct)
  case (1 n)
  show ?case
  proof (cases "n < 10")
    case True
    then show ?thesis by (subst digits.simps) (simp add: digit_char_props)
  next
    case False
    with 1 have "foldl (\<lambda>a c. 10 * a + digit_val c) 0 (digits (n div 10)) = n div 10" by simp
    moreover have "n mod 10 < 10" by simp
    ultimately show ?thesis using False by (subst digits.simps) (simp add: digit_char_props)
  qed
qed

lemma foldl_zeros:
  "foldl (\<lambda>a c. 10 * a + digit_val c) 0 (replicate k CHR ''0'' @ cs) = foldl (\<lambda>a c. 10 * a + digit_val c) 0 cs"
  by (induction k) (simp_all add: digit_val_def)

lemma zfill_all: "list_all is_digit (zfill w (digits n))"
  using digits_all [of n] is_digit_0 by (auto simp: zfill_def list_all_iff)

lemma zfill_nonempty: "zfill w (digits n) \<noteq> []"
  by (simp add: zfill_def digits_nonempty)

lemma parse_nat_all:
  assumes "list_all is_digit cs" and "cs \<noteq> []"
  shows "parse_nat cs = Some (foldl (\<lambda>a c. 10 * a + digit_val c) 0 cs)"
proof -
  from assms obtain c cs' where cs: "cs = c # cs'" by (cases cs) auto
  with assms(1) show ?thesis by (simp add: parse_nat_def parse_digits_all)
qed

lemma parse_nat_zfill: "parse_nat (zfill w (digits n)) = Some n"
proof -
  have "foldl (\<lambda>a c. 10 * a + digit_val c) 0 (zfill w (digits n)) = n"
    unfolding zfill_def foldl_zeros by (rule foldl_digits)
  with parse_nat_all [OF zfill_all zfill_nonempty, of w n] show ?thesis by simp
qed

lemma is_digit_facts:
  "is_digit c \<Longrightarrow> \<not> is_space c" "is_digit c \<Longrightarrow> c \<noteq> CHR ''-''" "is_digit c \<Longrightarrow> c \<noteq> CHR ''+''"
  "is_digit c \<Longrightarrow> \<not> is_int_space c"
  by (auto simp: is_digit_def is_space_def is_int_space_def Let_def)

lemma int_strip_id:
  assumes "s \<noteq> []" and "\<not> is_int_space (hd s)" and "\<not> is_int_space (last s)"
  shows "int_strip s = s"
proof -
  from assms(1,2) have "dropWhile is_int_space s = s" by (cases s) auto
  moreover from assms(1,3) have "dropWhile is_int_space (rev s) = rev s"
    by (cases "rev s") (auto simp: hd_rev)
  ultimately show ?thesis by (simp add: int_strip_def)
qed

lemma py_strip_id:
  assumes "s \<noteq> []" and "\<not> is_space (hd s)" and "\<not> is_space (last s)"
  shows "py_strip s = s"
proof -
  from assms(1,2) have "dropWhile is_space s = s" by (cases s) auto
  moreover from assms(1,3) have "dropWhile is_space (rev s) = rev s"
    by (cases "rev s") (auto simp: hd_rev)
  ultimately show ?thesis by (simp add: py_strip_def)
qed

lemma fmt04_roundtrip: "py_int (fmt04 n) = Some n"
proof (cases "n < 0")
  case True
  define body where "body = zfill 3 (digits (nat (- n)))"
  have all: "list_all is_digit body" and ne: "body \<noteq> []"
    by (simp_all add: body_def zfill_all zfill_nonempty)
  then have "is_digit (last body)" by (simp add: list_all_iff)
  then have "\<not> is_int_space (last (CHR ''-'' # body))" using ne by (simp add: is_digit_facts)
  moreover have "\<not> is_int_space CHR ''-''" by (simp add: is_int_space_def)
  ultimately have "int_strip (CHR ''-'' # body) = CHR ''-'' # body"
    by (intro int_strip_id) simp_all
  then show ?thesis using True
    by (simp add: py_int_def fmt04_def body_def [symmetric]) (simp add: body_def parse_nat_zfill)
next
  case False
  define body where "body = zfill 4 (digits (nat n))"
  have all: "list_all is_digit body" and ne: "body \<noteq> []"
    by (simp_all add: body_def zfill_all zfill_nonempty)
  then obtain c cs where body: "body = c # cs" by (cases body) auto
  with all have "is_digit c" by simp
  from all ne have "is_digit (last body)" and "is_digit (hd body)" by (simp_all add: list_all_iff)
  then have "int_strip body = body" using ne by (intro int_strip_id) (simp_all add: is_digit_facts)
  moreover have "parse_nat body = Some (nat n)" by (simp add: body_def parse_nat_zfill)
  ultimately show ?thesis using False \<open>is_digit c\<close>
    by (simp add: py_int_def fmt04_def body_def [symmetric]) (simp add: body is_digit_facts)
qed

lemma fmt04_inj: "fmt04 a = fmt04 b \<Longrightarrow> a = b"
  by (metis fmt04_roundtrip option.inject)

lemma fmt04_no_hyphen: "0 \<le> n \<Longrightarrow> CHR ''-'' \<notin> set (fmt04 n)"
  using zfill_all [of 4 "nat n"] by (auto simp: fmt04_def list_all_iff dest: is_digit_facts(2))

lemma rsplit_last_append:
  "CHR ''-'' \<notin> set t \<Longrightarrow> rsplit_last (s @ CHR ''-'' # t) = t"
proof -
  assume "CHR ''-'' \<notin> set t"
  then have "takeWhile (\<lambda>c. c \<noteq> CHR ''-'') (rev t @ CHR ''-'' # rev s) = rev t"
    by (intro takeWhile_tail [THEN trans] takeWhile_eq_all_conv [THEN iffD2]) auto
  then show ?thesis by (simp add: rsplit_last_def)
qed

lemma length_digits_small: "n < 10000 \<Longrightarrow> length (digits n) \<le> 4"
  by (subst digits.simps, subst digits.simps, subst digits.simps, subst digits.simps) auto

lemma length_digits_large: "10000 \<le> n \<Longrightarrow> 4 < length (digits n)"
  by (subst digits.simps, subst digits.simps, subst digits.simps, subst digits.simps)
     (auto simp: digits_nonempty)

lemma fmt04_small: "0 \<le> n \<Longrightarrow> n < 10000 \<Longrightarrow> length (fmt04 n) = 4"
proof -
  assume "0 \<le> n" and "n < 10000"
  then have "nat n < 10000" by simp
  from length_digits_small [OF this] \<open>0 \<le> n\<close> show ?thesis
    by (simp add: fmt04_def zfill_def)
qed

lemma fmt04_large: "10000 \<le> n \<Longrightarrow> fmt04 n = str_int n"
proof -
  assume "10000 \<le> n"
  then have "10000 \<le> nat n" by simp
  from length_digits_large [OF this] \<open>10000 \<le> n\<close> show ?thesis
    by (simp add: fmt04_def zfill_def str_int_def)
qed

lemma fmt04_digits: "0 \<le> n \<Longrightarrow> list_all is_digit (fmt04 n)"
  by (simp add: fmt04_def zfill_all)

lemma add_allocates:
  assumes "template_id r = []"
  shows "template_id (fst (snd (add eng r l))) = lib_source_id l @ ''-'' @ fmt04 (sequence l)"
    and "sequence (snd (snd (add eng r l))) = sequence l + 1"
    and "lib_source_id (snd (snd (add eng r l))) = lib_source_id l"
  using assms by (simp_all add: add_def allocate_id_def Let_def split: option.splits)

lemma add_all_ids:
  "\<forall>r\<in>set rs. template_id r = [] \<Longrightarrow>
     map template_id (fst (add_all eng rs l))
       = map (\<lambda>i. lib_source_id l @ ''-'' @ fmt04 (sequence l + int i)) [0..<length rs]"
proof (induction rs arbitrary: l)
  case Nil
  show ?case by simp
next
  case (Cons r rs)
  obtain err r' l' where a: "add eng r l = (err, r', l')" by (cases "add eng r l")
  from Cons.prems have e: "template_id r = []" and rest: "\<forall>r\<in>set rs. template_id r = []" by simp_all
  from add_allocates [OF e, of eng l] a
  have r': "template_id r' = lib_source_id l @ ''-'' @ fmt04 (sequence l)"
    and seq: "sequence l' = sequence l + 1" and src: "lib_source_id l' = lib_source_id l"
    by simp_all
  have "map template_id (fst (add_all eng rs l'))
       = map (\<lambda>i. lib_source_id l @ ''-'' @ fmt04 (sequence l + int (Suc i))) [0..<length rs]"
    using Cons.IH [OF rest, of l'] by (simp add: seq src ac_simps)
  also have "\<dots> = map (\<lambda>i. lib_source_id l @ ''-'' @ fmt04 (sequence l + int i)) (map Suc [0..<length rs])"
    by (simp add: comp_def)
  finally have tl: "map template_id (fst (add_all eng rs l'))
       = map (\<lambda>i. lib_source_id l @ ''-'' @ fmt04 (sequence l + int i)) [Suc 0..<Suc (length rs)]"
    by (simp only: map_Suc_upt)
  have fst_add: "fst (add_all eng (r # rs) l) = r' # fst (add_all eng rs l')"
    using a by (simp split: prod.splits)
  have upt: "[0..<length (r # rs)] = 0 # [Suc 0..<Suc (length rs)]"
    by (simp add: upt_conv_Cons del: upt_Suc)
  show ?case unfolding fst_add upt
    by (simp add: r' tl del: upt_Suc)
qed

lemma add_all_distinct:
  assumes "\<forall>r\<in>set rs. template_id r = []"
  shows "distinct (map template_id (fst (add_all eng rs l)))"
proof -
  have "inj_on (\<lambda>i. lib_source_id l @ ''-'' @ fmt04 (sequence l + int i)) (set [0..<length rs])"
    by (auto intro!: inj_onI dest: fmt04_inj)
  then show ?thesis unfolding add_all_ids [OF assms] by (simp add: distinct_map)
qed

lemma load_loop_seq:
  "load_loop eng recs l = Inr l' \<Longrightarrow>
     sequence l \<le> sequence l' \<and> lib_source_id l' = lib_source_id l
     \<and> (\<forall>r\<in>set recs. \<forall>k. py_int (rsplit_last (template_id r)) = Some k \<longrightarrow> k < sequence l')
     \<and> (sequence l' = sequence l
          \<or> (\<exists>r\<in>set recs. py_int (rsplit_last (template_id r)) = Some (sequence l' - 1)))"
proof (induction recs arbitrary: l)
  case Nil
  then show ?case by simp
next
  case (Cons r recs)
  from Cons.prems obtain p where p: "re_compile eng (regex r) = Some p"
    by (cases "re_compile eng (regex r)") simp_all
  define l1 where "l1 = l\<lparr>templates := dict_set (templates l) (template_id r) r,
                      compiled := (compiled l)(template_id r \<mapsto> p)\<rparr>"
  have l1: "sequence l1 = sequence l" "lib_source_id l1 = lib_source_id l" by (simp_all add: l1_def)
  show ?case
  proof (cases "py_int (rsplit_last (template_id r))")
    case None
    with Cons.prems p have "load_loop eng recs l1 = Inr l'" by (simp add: l1_def Let_def)
    from Cons.IH [OF this] None l1 show ?thesis by auto
  next
    case (Some k)
    define l2 where "l2 = l1\<lparr>sequence := max (sequence l1) (k + 1)\<rparr>"
    from Some Cons.prems p have "load_loop eng recs l2 = Inr l'" by (simp add: l1_def l2_def Let_def)
    note IH = Cons.IH [OF this]
    have l2: "sequence l2 = max (sequence l) (k + 1)" "lib_source_id l2 = lib_source_id l"
      by (simp_all add: l2_def l1)
    from IH l2 have le: "sequence l \<le> sequence l'" and k: "k < sequence l'"
      and src: "lib_source_id l' = lib_source_id l" by auto
    from IH have rest: "\<forall>r\<in>set recs. \<forall>k. py_int (rsplit_last (template_id r)) = Some k \<longrightarrow> k < sequence l'"
      by blast
    from IH l2 have "sequence l' = max (sequence l) (k + 1)
          \<or> (\<exists>r\<in>set recs. py_int (rsplit_last (template_id r)) = Some (sequence l' - 1))"
      by simp
    then have ex: "sequence l' = sequence l
          \<or> (\<exists>r\<in>set (r # recs). py_int (rsplit_last (template_id r)) = Some (sequence l' - 1))"
      using Some by (auto simp: max_def split: if_splits)
    from le src k rest Some ex show ?thesis by auto
  qed
qed

lemma next_suffix:
  "0 \<le> sequence l \<Longrightarrow> py_int (rsplit_last (fst (allocate_id l))) = Some (sequence l)"
  by (simp add: allocate_id_def rsplit_last_append fmt04_no_hyphen fmt04_roundtrip)

text \<open>
  C8.  \<^verbatim>\<open>allocate_id\<close> returns the source id, a hyphen and the sequence number, and
  advances the sequence by one.  A number from 0 to 9999 is written with exactly four digits,
  a larger one in full, and \<^verbatim>\<open>int\<close> reads every written number back, so two sequence
  numbers never give the same text.  The ids that consecutive \<^verbatim>\<open>add\<close> calls assign to
  records without an id are distinct.  After loading, the sequence is above every numeric
  suffix among the loaded ids (ids with another suffix are passed over), it is one more than
  such a suffix unless it is 1, and the next allocated id carries it as its suffix.
\<close>

theorem id_allocation:
  "fst (allocate_id l) = lib_source_id l @ ''-'' @ fmt04 (sequence l)
   \<and> sequence (snd (allocate_id l)) = sequence l + 1
   \<and> (0 \<le> n \<and> n < 10000 \<longrightarrow> length (fmt04 n) = 4 \<and> list_all is_digit (fmt04 n))
   \<and> (10000 \<le> n \<longrightarrow> fmt04 n = str_int n)
   \<and> py_int (fmt04 n) = Some n
   \<and> (fmt04 a = fmt04 b \<longrightarrow> a = b)
   \<and> ((\<forall>r\<in>set rs. template_id r = []) \<longrightarrow> distinct (map template_id (fst (add_all eng rs l))))
   \<and> (init_library eng src (Some recs) = Inr l' \<longrightarrow>
         (\<forall>r\<in>set recs. \<forall>k. py_int (rsplit_last (template_id r)) = Some k \<longrightarrow> k < sequence l')
         \<and> py_int (rsplit_last (fst (allocate_id l'))) = Some (sequence l')
         \<and> (sequence l' = 1
              \<or> (\<exists>r\<in>set recs. py_int (rsplit_last (template_id r)) = Some (sequence l' - 1))))"
proof -
  have load: "init_library eng src (Some recs) = Inr l' \<longrightarrow>
         (\<forall>r\<in>set recs. \<forall>k. py_int (rsplit_last (template_id r)) = Some k \<longrightarrow> k < sequence l')
         \<and> py_int (rsplit_last (fst (allocate_id l'))) = Some (sequence l')
         \<and> (sequence l' = 1
              \<or> (\<exists>r\<in>set recs. py_int (rsplit_last (template_id r)) = Some (sequence l' - 1)))"
  proof
    assume "init_library eng src (Some recs) = Inr l'"
    then have "load_loop eng recs (new_library src) = Inr l'" by (simp add: init_library_def)
    from load_loop_seq [OF this]
    have 1: "1 \<le> sequence l'"
      and 2: "\<forall>r\<in>set recs. \<forall>k. py_int (rsplit_last (template_id r)) = Some k \<longrightarrow> k < sequence l'"
      and 3: "sequence l' = 1
              \<or> (\<exists>r\<in>set recs. py_int (rsplit_last (template_id r)) = Some (sequence l' - 1))"
      by (simp_all add: new_library_def)
    from 1 have "py_int (rsplit_last (fst (allocate_id l'))) = Some (sequence l')"
      by (intro next_suffix) simp
    with 2 3 show "(\<forall>r\<in>set recs. \<forall>k. py_int (rsplit_last (template_id r)) = Some k \<longrightarrow> k < sequence l')
         \<and> py_int (rsplit_last (fst (allocate_id l'))) = Some (sequence l')
         \<and> (sequence l' = 1
              \<or> (\<exists>r\<in>set recs. py_int (rsplit_last (template_id r)) = Some (sequence l' - 1)))"
      by blast
  qed
  have alloc: "fst (allocate_id l) = lib_source_id l @ ''-'' @ fmt04 (sequence l)"
      "sequence (snd (allocate_id l)) = sequence l + 1"
    by (simp_all add: allocate_id_def)
  have small: "0 \<le> n \<and> n < 10000 \<longrightarrow> length (fmt04 n) = 4 \<and> list_all is_digit (fmt04 n)"
    by (simp add: fmt04_small fmt04_digits)
  have large: "10000 \<le> n \<longrightarrow> fmt04 n = str_int n" by (simp add: fmt04_large)
  have inj: "fmt04 a = fmt04 b \<longrightarrow> a = b" by (blast dest: fmt04_inj)
  have dist: "(\<forall>r\<in>set rs. template_id r = []) \<longrightarrow> distinct (map template_id (fst (add_all eng rs l)))"
    by (blast intro: add_all_distinct)
  from alloc small large fmt04_roundtrip [of n] inj dist load show ?thesis by blast
qed

lemma replicate_numeral: "replicate (numeral k) x = x # replicate (pred_numeral k) x"
  by (simp add: numeral_eq_Suc)

lemma fmt04_examples: "fmt04 7 = ''0007''" "fmt04 12345 = ''12345''" "fmt04 8 = ''0008''"
    "fmt04 1 = ''0001''" "fmt04 2 = ''0002''" "fmt04 3 = ''0003''" "str_int 12345 = ''12345''"
  by (simp_all add: fmt04_def str_int_def zfill_def digits.simps digit_char_def replicate_numeral)

theorem id_allocation_witness:
  "(0::int) \<le> 7 \<and> (7::int) < 10000 \<and> fmt04 7 = ''0007''
   \<and> (10000::int) \<le> 12345 \<and> fmt04 12345 = ''12345''
   \<and> fst (allocate_id lib1) = ''src-0003''
   \<and> template_id (mk_record [] ''a'' True) = [] \<and> template_id (mk_record [] ''('' True) = []
   \<and> map template_id (fst (add_all lit_engine [mk_record [] ''a'' True, mk_record [] ''('' True]
         (new_library ''src''))) = [''src-0001'', ''src-0002'']
   \<and> init_library lit_engine ''src''
         (Some [mk_record ''src-0007'' ''a'' True, mk_record ''src-abc'' ''b'' False]) = Inr loaded_lib
   \<and> sequence loaded_lib = 8
   \<and> fst (allocate_id loaded_lib) = ''src-0008''
   \<and> py_int (rsplit_last ''src-0008'') = Some 8"
proof -
  have load: "init_library lit_engine ''src''
         (Some [mk_record ''src-0007'' ''a'' True, mk_record ''src-abc'' ''b'' False]) = Inr loaded_lib"
    by (simp add: init_library_def new_library_def lit_engine_def mk_record_def loaded_lib_def
          py_int_def int_strip_def rsplit_last_def is_int_space_def is_digit_def digit_val_def
          parse_nat_def Let_def)
  have adds: "map template_id (fst (add_all lit_engine [mk_record [] ''a'' True, mk_record [] ''('' True]
         (new_library ''src''))) = [''src-0001'', ''src-0002'']"
    by (simp add: add_def allocate_id_def new_library_def lit_engine_def mk_record_def Let_def
          fmt04_examples)
  have suffix: "py_int (rsplit_last ''src-0008'') = Some 8"
    by (simp add: py_int_def int_strip_def rsplit_last_def is_int_space_def is_digit_def digit_val_def
          parse_nat_def Let_def)
  have seq: "sequence loaded_lib = 8" by (simp add: loaded_lib_def)
  have empty: "template_id (mk_record [] ''a'' True) = []" "template_id (mk_record [] ''('' True) = []"
    by (simp_all add: mk_record_def)
  note inst = id_allocation [where n = 7 and a = 0 and b = 0 and eng = lit_engine
        and rs = "[mk_record [] ''a'' True, mk_record [] ''('' True]" and src = "''src''"
        and recs = "[mk_record ''src-0007'' ''a'' True, mk_record ''src-abc'' ''b'' False]"
        and l' = loaded_lib]
  from inst [where l = lib1] have "fst (allocate_id lib1) = lib_source_id lib1 @ ''-'' @ fmt04 (sequence lib1)"
    by (rule conjunct1)
  then have a1: "fst (allocate_id lib1) = ''src-0003''"
    by (simp add: lib1_def fmt04_examples)
  from inst [where l = loaded_lib] have "fst (allocate_id loaded_lib)
      = lib_source_id loaded_lib @ ''-'' @ fmt04 (sequence loaded_lib)"
    by (rule conjunct1)
  then have a2: "fst (allocate_id loaded_lib) = ''src-0008''"
    by (simp add: loaded_lib_def fmt04_examples)
  have ar: "(0::int) \<le> 7" "(7::int) < 10000" "(10000::int) \<le> 12345" by simp_all
  note f1 = fmt04_examples(1) and f2 = fmt04_examples(2)
  show ?thesis
    apply (intro conjI)
    apply (fact ar a1 a2 load adds suffix seq empty f1 f2)+
    done
qed

subsection \<open>Adding records and the repair step\<close>

lemma map_of_dict_set: "map_of (dict_set ps k v) = (map_of ps)(k \<mapsto> v)"
  by (induction ps) (auto simp: fun_eq_iff)

lemma keys_dict_set:
  "map fst (dict_set ps k v) = (if k \<in> fst ` set ps then map fst ps else map fst ps @ [k])"
  by (induction ps) force+


text \<open>
  C10, amended.  A record that comes with an id gets no new id and the sequence stays.  When
  its pattern compiles, \<^verbatim>\<open>add\<close> raises nothing and returns the record, the record takes the
  place of whatever \<^verbatim>\<open>templates\<close> held under that id, the other entries and the order of the
  ids untouched, and the compiled pattern replaces the cached one.  Only a record with an
  empty id gets the next id of the sequence.
\<close>

theorem add_keeps_given_id:
  "(template_id r \<noteq> [] \<longrightarrow>
      sequence (snd (snd (add eng r l))) = sequence l
      \<and> (\<forall>p. re_compile eng (regex r) = Some p \<longrightarrow>
            fst (add eng r l) = None
            \<and> fst (snd (add eng r l)) = r
            \<and> map_of (templates (snd (snd (add eng r l)))) = (map_of (templates l))(template_id r \<mapsto> r)
            \<and> (template_id r \<in> fst ` set (templates l) \<longrightarrow>
                  map fst (templates (snd (snd (add eng r l)))) = map fst (templates l))
            \<and> compiled (snd (snd (add eng r l))) = (compiled l)(template_id r \<mapsto> p)))
   \<and> (template_id r = [] \<longrightarrow>
      template_id (fst (snd (add eng r l))) = fst (allocate_id l)
      \<and> sequence (snd (snd (add eng r l))) = sequence l + 1)"
  by (cases "re_compile eng (regex r)")
     (simp_all add: add_def allocate_id_def Let_def map_of_dict_set keys_dict_set)

text \<open>
  C10, as stated, fails for a record whose pattern does not compile.  \<^verbatim>\<open>add\<close> writes the
  record into \<^verbatim>\<open>templates\<close> and then calls \<^verbatim>\<open>re.compile\<close>: with the id \<^verbatim>\<open>src-0001\<close> of a
  stored record and the pattern \<^verbatim>\<open>(\<close> it raises, the record under \<^verbatim>\<open>src-0001\<close> is the new
  one, and the cache still holds the matcher of the old pattern \<^verbatim>\<open>a\<close>.
\<close>

theorem add_bad_pattern_keeps_matcher:
  "template_id (mk_record ''src-0001'' ''('' True) = ''src-0001''
   \<and> map_of (templates lib1) ''src-0001'' = Some (mk_record ''src-0001'' ''a'' True)
   \<and> compiled lib1 ''src-0001'' = Some ''a''
   \<and> re_compile lit_engine ''('' = None
   \<and> fst (add lit_engine (mk_record ''src-0001'' ''('' True) lib1) = Some PatternError
   \<and> map_of (templates (snd (snd (add lit_engine (mk_record ''src-0001'' ''('' True) lib1))))
        ''src-0001'' = Some (mk_record ''src-0001'' ''('' True)
   \<and> compiled (snd (snd (add lit_engine (mk_record ''src-0001'' ''('' True) lib1))) ''src-0001''
        = Some ''a''
   \<and> sequence (snd (snd (add lit_engine (mk_record ''src-0001'' ''('' True) lib1))) = 3"
  by (simp add: add_def lib1_def lit_engine_def mk_record_def Let_def)

theorem add_keeps_given_id_witness:
  "template_id (mk_record ''src-0001'' ''.*'' True) \<noteq> []
   \<and> ''src-0001'' \<in> fst ` set (templates lib1)
   \<and> re_compile lit_engine ''.*'' = Some ''.*''
   \<and> fst (add lit_engine (mk_record ''src-0001'' ''.*'' True) lib1) = None
   \<and> templates (snd (snd (add lit_engine (mk_record ''src-0001'' ''.*'' True) lib1)))
        = [(''src-0001'', mk_record ''src-0001'' ''.*'' True),
           (''src-0002'', mk_record ''src-0002'' ''b'' False)]
   \<and> compiled (snd (snd (add lit_engine (mk_record ''src-0001'' ''.*'' True) lib1))) ''src-0001''
        = Some ''.*''
   \<and> sequence (snd (snd (add lit_engine (mk_record ''src-0001'' ''.*'' True) lib1))) = 3
   \<and> template_id (mk_record [] ''c'' True) = []
   \<and> sequence (snd (snd (add lit_engine (mk_record [] ''c'' True) lib1))) = 4"
  using add_keeps_given_id [of "mk_record ''src-0001'' ''.*'' True" lit_engine lib1]
    add_keeps_given_id [of "mk_record [] ''c'' True" lit_engine lib1]
  by (simp add: add_def lib1_def lit_engine_def mk_record_def allocate_id_def Let_def)

text \<open>
  C4 at a pattern that does not compile and that the reviewer approved, on an empty store:
  \<^verbatim>\<open>_detect_conflicts\<close> answers the empty list, \<^verbatim>\<open>add\<close> raises, \<^verbatim>\<open>process_line\<close> lets the
  error through, and the record is in the store under a fresh id, active.  The phase-1 loop
  stops there: the second line is never processed.
\<close>

theorem add_failure_aborts_run:
  "re_compile lit_engine ''('' = None
   \<and> fst (process_line lit_engine bad_pattern_agents (mk_line ''x'') ''device=a, vendor=b'' st0)
        = Inl PatternError
   \<and> templates (library (snd
          (process_line lit_engine bad_pattern_agents (mk_line ''x'') ''device=a, vendor=b'' st0)))
        = [(''src-0001'', \<lparr> template_id = ''src-0001'', source_id = ''src'', regex = ''('',
                                rec_notes = ''why'', is_active = True \<rparr>)]
   \<and> fst (phase1 lit_engine bad_pattern_agents ''device=a, vendor=b'' [mk_line ''x'', mk_line ''y''] st0)
        = Some PatternError
   \<and> processed_lines (metrics (snd
          (phase1 lit_engine bad_pattern_agents ''device=a, vendor=b'' [mk_line ''x'', mk_line ''y''] st0)))
        = 1"
proof -
  have fmt: "fmt04 1 = ''0001''"
    by (simp add: fmt04_def zfill_def digits.simps digit_char_def replicate_numeral)
  have pl: "process_line lit_engine bad_pattern_agents (mk_line ''x'') ''device=a, vendor=b'' st
      = (Inl PatternError,
         st\<lparr> world := world st @ [''derive'', ''review''],
             library := (library st)\<lparr> sequence := sequence (library st) + 1,
                templates := dict_set (templates (library st))
                  (lib_source_id (library st) @ ''-'' @ fmt04 (sequence (library st)))
                  \<lparr> template_id = lib_source_id (library st) @ ''-'' @ fmt04 (sequence (library st)),
                     source_id = lib_source_id (library st), regex = ''('',
                     rec_notes = ''why'', is_active = True \<rparr> \<rparr> \<rparr>)"
    if "world st = []" for st :: "(string, string list) run_state"
    using that
    by (simp add: process_line_def after_review_def bad_pattern_agents_def scripted_def
          detect_conflicts_def store_candidate_def add_def allocate_id_def lit_engine_def Let_def)
  have m: "match lit_engine (new_library ''src'') ln = (Inr None, new_library ''src'')" for ln
    by (simp add: match_def new_library_def)
  show ?thesis
    by (simp add: pl m phase1_step_def st0_def increment_def Let_def fmt)
       (simp add: new_library_def lit_engine_def fmt)
qed

text \<open>
  What \<^verbatim>\<open>process_line\<close> does once the reviewer has rejected the proposed pattern.
  \<^verbatim>\<open>refine\<close> is called once, on the world the first review left.  If it raises, the outcome
  is \<^verbatim>\<open>repair_failed\<close>.  If it answers, the refined pattern is reviewed once; when that
  review rejects too, the escalation counter goes up by one, and then the issues are joined:
  the outcome is \<^verbatim>\<open>rejected\<close> when every issue is a string, and \<^verbatim>\<open>TypeError\<close> leaves
  the method otherwise.  The store, the example cache and the queue are as before.
\<close>

lemma rejected_after_one_repair:
  assumes "derive ag [line] ctx (world st) = (Inr proposal, w1)"
    and "review ag (proposal_regex proposal) line ctx w1 = (Inr report, w2)"
    and "\<not> approved report"
  shows "(\<forall>msg w3.
            refine ag (proposal_regex proposal) (issues report) (suggestions report) line ctx w2
              = (Inl msg, w3) \<longrightarrow>
            process_line eng ag line ctx st
              = (Inr \<lparr> status = ''repair_failed'', outcome_template_id = None, detail = JStr msg \<rparr>,
                 st\<lparr> world := w3,
                     metrics := (metrics st)\<lparr> escalations := escalations (metrics st) + 1 \<rparr> \<rparr>))
       \<and> (\<forall>refined w3 report2 w4.
            refine ag (proposal_regex proposal) (issues report) (suggestions report) line ctx w2
              = (Inr refined, w3)
            \<and> review ag refined line ctx w3 = (Inr report2, w4) \<and> \<not> approved report2 \<longrightarrow>
            process_line eng ag line ctx st
              = (case join_json ''; '' (issues report2) of
                   None \<Rightarrow> Inl TypeError
                 | Some joined \<Rightarrow>
                     Inr \<lparr> status = ''rejected'', outcome_template_id = None,
                            detail = JStr joined \<rparr>,
                 st\<lparr> world := w4,
                     metrics := (metrics st)\<lparr> escalations := escalations (metrics st) + 1 \<rparr> \<rparr>))"
  using assms
  by (auto simp: process_line_def after_review_def increment_def Let_def split: option.splits)

text \<open>
  C5 at a reviewer that rejects the proposed and the refined pattern with the verdict
  \<^verbatim>\<open>{"approved": false, "issues": [1]}\<close>.  The escalation counter is incremented, and then
  joining the issues raises \<^verbatim>\<open>TypeError\<close>: there is no outcome \<^verbatim>\<open>rejected\<close>, the error
  leaves \<^verbatim>\<open>process_line\<close>, and the phase-1 loop stops before the second line.
\<close>

theorem rejected_with_number_issue_aborts:
  "review number_issue_agents ''a'' (mk_line ''a'') ''ctx'' [''derive'']
     = (Inr \<lparr> approved = False, issues = [JNum 1], suggestions = [], report_reasoning = JStr [] \<rparr>,
        [''derive'', ''review''])
   \<and> process_line lit_engine number_issue_agents (mk_line ''a'') ''ctx'' st0
       = (Inl TypeError,
          st0\<lparr> world := [''derive'', ''review'', ''refine'', ''review''],
               metrics := (metrics st0)\<lparr> escalations := 1 \<rparr> \<rparr>)
   \<and> fst (phase1 lit_engine number_issue_agents ''ctx'' [mk_line ''a'', mk_line ''b''] st0)
       = Some TypeError
   \<and> processed_lines (metrics (snd
          (phase1 lit_engine number_issue_agents ''ctx'' [mk_line ''a'', mk_line ''b''] st0))) = 1"
proof -
  have pl: "process_line lit_engine number_issue_agents (mk_line ''a'') ''ctx'' st
       = (Inl TypeError,
          st\<lparr> world := [''derive'', ''review'', ''refine'', ''review''],
              metrics := (metrics st)\<lparr> escalations := escalations (metrics st) + 1 \<rparr> \<rparr>)"
    if "world st = []" for st :: "(string, string list) run_state"
    using that
    by (simp add: process_line_def after_review_def number_issue_agents_def scripted_def
          join_json_def increment_def Let_def)
  have m: "match lit_engine (new_library ''src'') ln = (Inr None, new_library ''src'')" for ln
    by (simp add: match_def new_library_def)
  have rv: "review number_issue_agents ''a'' (mk_line ''a'') ''ctx'' [''derive'']
     = (Inr \<lparr> approved = False, issues = [JNum 1], suggestions = [], report_reasoning = JStr [] \<rparr>,
        [''derive'', ''review''])"
    by (simp add: number_issue_agents_def scripted_def)
  show ?thesis
    by (simp add: rv pl m phase1_step_def st0_def increment_def Let_def)
qed

subsection \<open>Conflict plans\<close>

lemma escalation_of_escalate:
  "library st1 = library st \<Longrightarrow> examples st1 = examples st \<Longrightarrow> metrics st1 = metrics st
     \<Longrightarrow> interaction st1 = interaction st \<Longrightarrow>
   escalation_of pl st
     (Inr \<lparr> status = ''escalated'', outcome_template_id = None, detail = d \<rparr>,
      escalate candidate line pl reason st1)"
  by (simp add: escalation_of_def escalate_def enqueue_def increment_def)

text \<open>
  What \<^verbatim>\<open>_apply_conflict_plan\<close> does when the review of the plan's pattern returns a verdict.
  The store changes only if the plan had a usable pattern text and the review of it, made on
  the world the call started from, approved.  A plan whose pattern text is missing, not a
  string or blank is escalated without a review; a plan whose pattern the reviewer rejects is
  escalated; an approved plan whose decision is neither \<^verbatim>\<open>replace_conflicting\<close> nor
  \<^verbatim>\<open>refine_candidate\<close> is escalated.  Each escalation leaves the store and the example
  cache as they were, counts one escalation and queues one task that carries the plan.
\<close>

lemma conflict_plan_escalates:
  "(usable_regex (map_of pl ''new_regex'') = None \<longrightarrow>
      escalation_of pl st (apply_conflict_plan eng ag pl candidate line ctx st)
      \<and> world (snd (apply_conflict_plan eng ag pl candidate line ctx st)) = world st)
   \<and> (\<forall>nr v w.
        usable_regex (map_of pl ''new_regex'') = Some nr
        \<and> review ag (py_strip nr) line ctx (world st) = (Inr v, w)
        \<and> (\<not> approved v
            \<or> (map_of pl ''decision'' \<noteq> Some (JStr ''replace_conflicting'')
                \<and> map_of pl ''decision'' \<noteq> Some (JStr ''refine_candidate''))) \<longrightarrow>
        escalation_of pl st (apply_conflict_plan eng ag pl candidate line ctx st)
        \<and> world (snd (apply_conflict_plan eng ag pl candidate line ctx st)) = w)
   \<and> (library (snd (apply_conflict_plan eng ag pl candidate line ctx st)) \<noteq> library st \<longrightarrow>
        (\<exists>nr v w. usable_regex (map_of pl ''new_regex'') = Some nr
            \<and> review ag (py_strip nr) line ctx (world st) = (Inr v, w) \<and> approved v))"
proof (cases "usable_regex (map_of pl ''new_regex'')")
  case None
  then show ?thesis
    by (simp add: apply_conflict_plan_def escalation_of_escalate) (simp add: escalate_def)
next
  case (Some nr)
  obtain res w where rv: "review ag (py_strip nr) line ctx (world st) = (res, w)"
    by (cases "review ag (py_strip nr) line ctx (world st)")
  show ?thesis
  proof (cases res)
    case (Inl msg)
    with Some rv show ?thesis by (simp add: apply_conflict_plan_def)
  next
    case (Inr v)
    show ?thesis
    proof (cases "approved v")
      case False
      with Some rv Inr show ?thesis
        by (simp add: apply_conflict_plan_def Let_def escalation_of_escalate) (simp add: escalate_def)
    next
      case True
      show ?thesis
      proof (cases "map_of pl ''decision'' = Some (JStr ''replace_conflicting'')
                    \<or> map_of pl ''decision'' = Some (JStr ''refine_candidate'')")
        case True
        with Some rv Inr \<open>approved v\<close> show ?thesis by auto
      next
        case False
        with Some rv Inr \<open>approved v\<close> show ?thesis
          by (simp add: apply_conflict_plan_def Let_def escalation_of_escalate)
             (simp add: escalate_def)
      qed
    qed
  qed
qed

lemma conflict_plan_escalates_example:
  "usable_regex (map_of [(''decision'', JStr ''replace_conflicting'')] ''new_regex'') = None
   \<and> escalation_of [(''decision'', JStr ''replace_conflicting'')] st0
        (apply_conflict_plan lit_engine approving_agents [(''decision'', JStr ''replace_conflicting'')]
           (mk_record [] ''.*'' True) (mk_line ''a'') ''ctx'' st0)
   \<and> usable_regex (map_of [(''decision'', JStr ''merge''), (''new_regex'', JStr ''a'')] ''new_regex'')
        = Some ''a''
   \<and> review approving_agents (py_strip ''a'') (mk_line ''a'') ''ctx'' (world st0)
        = (Inr \<lparr> approved = True, issues = [JStr ''too broad''], suggestions = [],
                  report_reasoning = JStr [] \<rparr>, [''review''])
   \<and> escalation_of [(''decision'', JStr ''merge''), (''new_regex'', JStr ''a'')] st0
        (apply_conflict_plan lit_engine approving_agents
           [(''decision'', JStr ''merge''), (''new_regex'', JStr ''a'')]
           (mk_record [] ''.*'' True) (mk_line ''a'') ''ctx'' st0)
   \<and> fst (apply_conflict_plan lit_engine approving_agents
           [(''decision'', JStr ''merge''), (''new_regex'', JStr ''a'')]
           (mk_record [] ''.*'' True) (mk_line ''a'') ''ctx'' st0)
        = Inr \<lparr> status = ''escalated'', outcome_template_id = None,
                 detail = JStr ''unsupported conflict decision'' \<rparr>"
proof -
  have strip: "py_strip ''a'' = ''a''"
    by (simp add: py_strip_def is_space_def)
  have u1: "usable_regex (map_of [(''decision'', JStr ''replace_conflicting'')] ''new_regex'') = None"
    by (simp add: usable_regex_def)
  have u2: "usable_regex (map_of [(''decision'', JStr ''merge''), (''new_regex'', JStr ''a'')] ''new_regex'')
        = Some ''a''"
    by (simp add: usable_regex_def strip)
  have rv: "review approving_agents (py_strip ''a'') (mk_line ''a'') ''ctx'' (world st0)
        = (Inr \<lparr> approved = True, issues = [JStr ''too broad''], suggestions = [],
                  report_reasoning = JStr [] \<rparr>, [''review''])"
    by (simp add: approving_agents_def scripted_def st0_def strip)
  note t1 = conflict_plan_escalates [where pl = "[(''decision'', JStr ''replace_conflicting'')]"
      and st = st0 and eng = lit_engine and ag = approving_agents
      and candidate = "mk_record [] ''.*'' True" and line = "mk_line ''a''" and ctx = "''ctx''"]
  note t2 = conflict_plan_escalates [where pl = "[(''decision'', JStr ''merge''), (''new_regex'', JStr ''a'')]"
      and st = st0 and eng = lit_engine and ag = approving_agents
      and candidate = "mk_record [] ''.*'' True" and line = "mk_line ''a''" and ctx = "''ctx''"]
  from t1 u1 have e1: "escalation_of [(''decision'', JStr ''replace_conflicting'')] st0
        (apply_conflict_plan lit_engine approving_agents [(''decision'', JStr ''replace_conflicting'')]
           (mk_record [] ''.*'' True) (mk_line ''a'') ''ctx'' st0)"
    by blast
  have dec: "map_of [(''decision'', JStr ''merge''), (''new_regex'', JStr ''a'')] ''decision''
        \<noteq> Some (JStr ''replace_conflicting'')"
      "map_of [(''decision'', JStr ''merge''), (''new_regex'', JStr ''a'')] ''decision''
        \<noteq> Some (JStr ''refine_candidate'')"
    by simp_all
  from t2 u2 rv dec have e2: "escalation_of [(''decision'', JStr ''merge''), (''new_regex'', JStr ''a'')] st0
        (apply_conflict_plan lit_engine approving_agents
           [(''decision'', JStr ''merge''), (''new_regex'', JStr ''a'')]
           (mk_record [] ''.*'' True) (mk_line ''a'') ''ctx'' st0)"
    by blast
  have out: "fst (apply_conflict_plan lit_engine approving_agents
           [(''decision'', JStr ''merge''), (''new_regex'', JStr ''a'')]
           (mk_record [] ''.*'' True) (mk_line ''a'') ''ctx'' st0)
        = Inr \<lparr> status = ''escalated'', outcome_template_id = None,
                 detail = JStr ''unsupported conflict decision'' \<rparr>"
    using u2 rv by (simp add: apply_conflict_plan_def Let_def)
  show ?thesis
    apply (intro conjI)
    apply (fact u1 e1 u2 rv e2 out)+
    done
qed

text \<open>
  C6 at a plan with the unsupported decision \<^verbatim>\<open>merge\<close> whose review raises
  \<^verbatim>\<open>AgentError\<close>.  The call of \<^verbatim>\<open>review\<close> in \<^verbatim>\<open>_apply_conflict_plan\<close> stands outside every
  \<^verbatim>\<open>try\<close>: the error leaves \<^verbatim>\<open>_apply_conflict_plan\<close> and \<^verbatim>\<open>process_line\<close>, no task is
  queued, the escalation counter stays, and the phase-1 loop stops before the next line.
\<close>

theorem review_error_not_escalated:
  "map_of plan_merge ''decision'' = Some (JStr ''merge'')
   \<and> apply_conflict_plan lit_engine review_raises_agents plan_merge (mk_record [] ''.*'' True)
        (mk_line ''b'') ''ctx'' (st_conflict\<lparr> world := [''derive'', ''review'', ''adjudicate''] \<rparr>)
       = (Inl (AgentError ''LLM failed to provide valid JSON after retry''),
          st_conflict\<lparr> world := [''derive'', ''review'', ''adjudicate'', ''review''] \<rparr>)
   \<and> \<not> escalation_of plan_merge (st_conflict\<lparr> world := [''derive'', ''review'', ''adjudicate''] \<rparr>)
        (apply_conflict_plan lit_engine review_raises_agents plan_merge (mk_record [] ''.*'' True)
          (mk_line ''b'') ''ctx'' (st_conflict\<lparr> world := [''derive'', ''review'', ''adjudicate''] \<rparr>))
   \<and> process_line lit_engine review_raises_agents (mk_line ''b'') ''ctx'' st_conflict
       = (Inl (AgentError ''LLM failed to provide valid JSON after retry''),
          st_conflict\<lparr> world := [''derive'', ''review'', ''adjudicate'', ''review''] \<rparr>)
   \<and> queue (interaction (snd
          (process_line lit_engine review_raises_agents (mk_line ''b'') ''ctx'' st_conflict))) = []
   \<and> escalations (metrics (snd
          (process_line lit_engine review_raises_agents (mk_line ''b'') ''ctx'' st_conflict))) = 0
   \<and> fst (phase1 lit_engine review_raises_agents ''ctx'' [mk_line ''b'', mk_line ''c''] st_conflict)
       = Some (AgentError ''LLM failed to provide valid JSON after retry'')"
proof -
  have strip: "py_strip ''a'' = ''a''"
    by (simp add: py_strip_def is_space_def)
  have ap: "apply_conflict_plan lit_engine review_raises_agents plan_merge candidate
        (mk_line ''b'') ''ctx'' st
       = (Inl (AgentError ''LLM failed to provide valid JSON after retry''),
          st\<lparr> world := world st @ [''review''] \<rparr>)"
    if "''review'' \<in> set (world st)"
    for candidate and st :: "(string, string list) run_state"
    using that
    by (simp add: apply_conflict_plan_def plan_merge_def usable_regex_def strip
          review_raises_agents_def scripted_def Let_def)
  have dc: "detect_conflicts lit_engine ''.*'' (library st_conflict) (examples st_conflict)
     = [(mk_record ''src-0001'' ''a'' True, ''a'')]"
    by (simp add: detect_conflicts_def st_conflict_def st0_def lit_engine_def mk_line_def
          mk_record_def)
  have pl: "process_line lit_engine review_raises_agents (mk_line ''b'') ''ctx'' st
       = (Inl (AgentError ''LLM failed to provide valid JSON after retry''),
          st\<lparr> world := [''derive'', ''review'', ''adjudicate'', ''review''] \<rparr>)"
    if "world st = []" "library st = library st_conflict" "examples st = examples st_conflict"
    for st :: "(string, string list) run_state"
  proof -
    have rs: "resolve_conflict review_raises_agents candidate (mk_line ''b'') ''ctx'' conflicts
          (st\<lparr> world := [''derive'', ''review''] \<rparr>)
        = (Inr plan_merge, st\<lparr> world := [''derive'', ''review'', ''adjudicate''] \<rparr>)"
      for candidate conflicts
      by (simp add: resolve_conflict_def review_raises_agents_def scripted_def)
    have ar: "after_review lit_engine review_raises_agents (mk_line ''b'') ''ctx'' proposal ''.*''
          \<lparr> approved = True, issues = [], suggestions = [], report_reasoning = JStr [] \<rparr>
          (st\<lparr> world := [''derive'', ''review''] \<rparr>)
        = (Inl (AgentError ''LLM failed to provide valid JSON after retry''),
           st\<lparr> world := [''derive'', ''review'', ''adjudicate'', ''review''] \<rparr>)"
      for proposal
      by (simp add: after_review_def that dc rs ap Let_def)
    have dv: "derive review_raises_agents samples ''ctx'' w
        = (Inr \<lparr> proposal_regex = ''.*'', proposal_reasoning = ''why'' \<rparr>, w @ [''derive''])"
      for samples w
      by (simp add: review_raises_agents_def scripted_def)
    have rv: "review review_raises_agents rx (mk_line ''b'') ''ctx'' [''derive'']
        = (Inr \<lparr> approved = True, issues = [], suggestions = [], report_reasoning = JStr [] \<rparr>,
           [''derive'', ''review''])"
      for rx
      by (simp add: review_raises_agents_def scripted_def)
    show ?thesis
      by (simp add: process_line_def that dv rv ar)
  qed
  have m: "match lit_engine (library st_conflict) (mk_line ''b'')
      = (Inr None, library st_conflict)"
    by (simp add: match_def match_loop.simps st_conflict_def st0_def lit_engine_def mk_line_def
          mk_record_def)
  have w0: "world st_conflict = []"
    by (simp add: st_conflict_def st0_def)
  have q: "queue (interaction st_conflict) = []" "escalations (metrics st_conflict) = 0"
    by (simp_all add: st_conflict_def st0_def)
  have c1: "map_of plan_merge ''decision'' = Some (JStr ''merge'')"
    by (simp add: plan_merge_def)
  have c2: "apply_conflict_plan lit_engine review_raises_agents plan_merge (mk_record [] ''.*'' True)
        (mk_line ''b'') ''ctx'' (st_conflict\<lparr> world := [''derive'', ''review'', ''adjudicate''] \<rparr>)
       = (Inl (AgentError ''LLM failed to provide valid JSON after retry''),
          st_conflict\<lparr> world := [''derive'', ''review'', ''adjudicate'', ''review''] \<rparr>)"
    by (simp add: ap)
  have c3: "\<not> escalation_of plan_merge (st_conflict\<lparr> world := [''derive'', ''review'', ''adjudicate''] \<rparr>)
        (apply_conflict_plan lit_engine review_raises_agents plan_merge (mk_record [] ''.*'' True)
          (mk_line ''b'') ''ctx'' (st_conflict\<lparr> world := [''derive'', ''review'', ''adjudicate''] \<rparr>))"
    by (simp add: c2 escalation_of_def)
  have c4: "process_line lit_engine review_raises_agents (mk_line ''b'') ''ctx'' st_conflict
       = (Inl (AgentError ''LLM failed to provide valid JSON after retry''),
          st_conflict\<lparr> world := [''derive'', ''review'', ''adjudicate'', ''review''] \<rparr>)"
    by (simp add: pl w0)
  have c5: "queue (interaction (snd
          (process_line lit_engine review_raises_agents (mk_line ''b'') ''ctx'' st_conflict))) = []"
    by (simp add: c4 q)
  have c6: "escalations (metrics (snd
          (process_line lit_engine review_raises_agents (mk_line ''b'') ''ctx'' st_conflict))) = 0"
    by (simp add: c4 q)
  have c7: "fst (phase1 lit_engine review_raises_agents ''ctx'' [mk_line ''b'', mk_line ''c''] st_conflict)
       = Some (AgentError ''LLM failed to provide valid JSON after retry'')"
    by (simp add: phase1_step_def m pl w0 Let_def)
  from c1 c2 c3 c4 c5 c6 c7 show ?thesis
    by (intro conjI)
qed

subsection \<open>Example cache\<close>

lemma store_candidate_example:
  "store_candidate eng nm dt candidate line st = (Inr outcome, st') \<Longrightarrow>
     outcome_template_id outcome = Some tid \<Longrightarrow> examples st' tid = Some line"
  by (cases "add eng candidate (library st)") (auto simp: store_candidate_def split: option.splits)

lemma apply_conflict_plan_example:
  assumes "apply_conflict_plan eng ag pl candidate line ctx st = (Inr outcome, st')"
    and "outcome_template_id outcome = Some tid"
  shows "examples st' tid = Some line"
proof (cases "usable_regex (map_of pl ''new_regex'')")
  case None
  with assms show ?thesis by (auto simp: apply_conflict_plan_def)
next
  case (Some nr)
  obtain res w where rv: "review ag (py_strip nr) line ctx (world st) = (res, w)"
    by (cases "review ag (py_strip nr) line ctx (world st)")
  show ?thesis
  proof (cases res)
    case (Inl msg)
    with Some rv assms show ?thesis by (simp add: apply_conflict_plan_def)
  next
    case (Inr v)
    obtain de l ex where dl: "deactivate_loop (replaced_id_list ag pl) (library st) (examples st) = (de, l, ex)"
      by (cases "deactivate_loop (replaced_id_list ag pl) (library st) (examples st)")
    from Some rv Inr assms dl show ?thesis
      by (auto simp: apply_conflict_plan_def Let_def split: if_splits option.splits
            dest: store_candidate_example)
  qed
qed

lemma after_review_example:
  assumes "after_review eng ag line ctx proposal rx report st = (Inr outcome, st')"
    and "outcome_template_id outcome = Some tid"
  shows "examples st' tid = Some line"
proof (cases "approved report")
  case False
  with assms show ?thesis by (auto simp: after_review_def Let_def split: option.splits)
next
  case True
  define candidate where "candidate = \<lparr> template_id = [], source_id = lib_source_id (library st),
      regex = rx, rec_notes = proposal_reasoning proposal, is_active = True \<rparr>"
  define conflicts where "conflicts = detect_conflicts eng rx (library st) (examples st)"
  show ?thesis
  proof (cases "conflicts = []")
    case c: True
    with True assms have "store_candidate eng ''stored'' (JStr ''stored without conflict'')
        candidate line st = (Inr outcome, st')"
      by (simp add: after_review_def Let_def candidate_def conflicts_def)
    from store_candidate_example [OF this assms(2)] show ?thesis .
  next
    case c: False
    obtain res st1 where rc: "resolve_conflict ag candidate line ctx conflicts st = (res, st1)"
      by (cases "resolve_conflict ag candidate line ctx conflicts st")
    show ?thesis
    proof (cases res)
      case (Inl msg)
      with True c rc assms show ?thesis
        by (auto simp: after_review_def Let_def candidate_def conflicts_def)
    next
      case (Inr pl)
      with True c rc assms have "apply_conflict_plan eng ag pl candidate line ctx st1 = (Inr outcome, st')"
        by (simp add: after_review_def Let_def candidate_def conflicts_def)
      from apply_conflict_plan_example [OF this assms(2)] show ?thesis .
    qed
  qed
qed

lemma process_line_example:
  assumes "process_line eng ag line ctx st = (Inr outcome, st')"
    and "outcome_template_id outcome = Some tid"
  shows "examples st' tid = Some line"
  using assms
  by (auto simp: process_line_def split: prod.splits sum.splits if_splits
        dest: after_review_example)

text \<open>
  C9, as stated, fails where a line matches a template that already has a cached example:
  \<^verbatim>\<open>setdefault\<close> keeps the entry.  The line \<^verbatim>\<open>second\<close> matches \<^verbatim>\<open>src-0001\<close>, and the
  cache still holds the line \<^verbatim>\<open>first\<close> for it afterwards.
\<close>

theorem example_cache_not_updated:
  "fst (match lit_engine (library st_seen) (mk_line ''second''))
     = Inr (Some (mk_record ''src-0001'' ''.*'' True, []))
   \<and> fst (phase1_step lit_engine approving_agents ''ctx'' (mk_line ''second'') st_seen) = None
   \<and> examples (snd (phase1_step lit_engine approving_agents ''ctx'' (mk_line ''second'') st_seen))
        ''src-0001'' = Some (mk_line ''first'')
   \<and> mk_line ''first'' \<noteq> mk_line ''second''"
  by (simp add: phase1_step_def st_seen_def st0_def match_def match_loop.simps lit_engine_def
        mk_line_def mk_record_def setdefault_def Let_def)

text \<open>
  C9, amended.  When a line matches a stored template, the cache entry of that template is
  set to the line only if the template has no entry yet; an entry it has is kept, and no
  other entry changes.  When a line matches nothing and its learning attempt stores a
  template, the cache entry of the new template id is that line.
\<close>

theorem example_cache_first_line:
  "(\<forall>r g l. match eng (library st) line = (Inr (Some (r, g)), l) \<longrightarrow>
      fst (phase1_step eng ag ctx line st) = None
      \<and> examples (snd (phase1_step eng ag ctx line st))
          = (case examples st (template_id r) of
               None \<Rightarrow> (examples st)(template_id r \<mapsto> line)
             | Some old \<Rightarrow> examples st))
   \<and> (\<forall>l outcome st' tid.
        match eng (library st) line = (Inr None, l)
        \<and> process_line eng ag line ctx
             (st\<lparr> metrics := increment ''processed_lines'' 1 (metrics st), library := l \<rparr>)
            = (Inr outcome, st')
        \<and> outcome_template_id outcome = Some tid \<longrightarrow>
        fst (phase1_step eng ag ctx line st) = None
        \<and> examples (snd (phase1_step eng ag ctx line st)) tid = Some line)"
proof (intro conjI allI impI)
  fix r g l
  assume "match eng (library st) line = (Inr (Some (r, g)), l)"
  then show "fst (phase1_step eng ag ctx line st) = None"
    and "examples (snd (phase1_step eng ag ctx line st))
          = (case examples st (template_id r) of
               None \<Rightarrow> (examples st)(template_id r \<mapsto> line)
             | Some old \<Rightarrow> examples st)"
    by (simp_all add: phase1_step_def Let_def setdefault_def)
next
  fix l outcome st' tid
  assume a: "match eng (library st) line = (Inr None, l)
        \<and> process_line eng ag line ctx
             (st\<lparr> metrics := increment ''processed_lines'' 1 (metrics st), library := l \<rparr>)
            = (Inr outcome, st')
        \<and> outcome_template_id outcome = Some tid"
  then have ex: "examples st' tid = Some line"
    by (blast dest: process_line_example)
  from a ex show "fst (phase1_step eng ag ctx line st) = None"
    by (simp add: phase1_step_def Let_def)
  from a ex show "examples (snd (phase1_step eng ag ctx line st)) tid = Some line"
    by (cases "tid = []") (auto simp: phase1_step_def Let_def setdefault_def)
qed

theorem example_cache_first_line_witness:
  "match lit_engine (library st_seen) (mk_line ''second'')
     = (Inr (Some (mk_record ''src-0001'' ''.*'' True, [])), library st_seen)
   \<and> examples (snd (phase1_step lit_engine approving_agents ''ctx'' (mk_line ''second'') st_seen))
       = [''src-0001'' \<mapsto> mk_line ''first'']
   \<and> match lit_engine (library st0) (mk_line ''a'') = (Inr None, library st0)
   \<and> fst (process_line lit_engine approving_agents (mk_line ''a'') ''ctx''
            (st0\<lparr> metrics := increment ''processed_lines'' 1 (metrics st0), library := library st0 \<rparr>))
       = Inr \<lparr> status = ''stored'', outcome_template_id = Some ''src-0001'',
                detail = JStr ''stored without conflict'' \<rparr>
   \<and> examples (snd (phase1_step lit_engine approving_agents ''ctx'' (mk_line ''a'') st0)) ''src-0001''
       = Some (mk_line ''a'')"
proof -
  have m1: "match lit_engine (library st_seen) (mk_line ''second'')
     = (Inr (Some (mk_record ''src-0001'' ''.*'' True, [])), library st_seen)"
    by (simp add: st_seen_def st0_def match_def match_loop.simps lit_engine_def mk_line_def
          mk_record_def)
  have m2: "match lit_engine (library st0) (mk_line ''a'') = (Inr None, library st0)"
    by (simp add: st0_def match_def new_library_def)
  obtain outcome st' where pl: "process_line lit_engine approving_agents (mk_line ''a'') ''ctx''
            (st0\<lparr> metrics := increment ''processed_lines'' 1 (metrics st0), library := library st0 \<rparr>)
       = (outcome, st')"
    by (cases "process_line lit_engine approving_agents (mk_line ''a'') ''ctx''
            (st0\<lparr> metrics := increment ''processed_lines'' 1 (metrics st0), library := library st0 \<rparr>)")
  have out: "outcome = Inr \<lparr> status = ''stored'', outcome_template_id = Some ''src-0001'',
                detail = JStr ''stored without conflict'' \<rparr>"
    using pl
    by (simp add: process_line_def after_review_def approving_agents_def scripted_def st0_def
          detect_conflicts_def store_candidate_def add_def allocate_id_def lit_engine_def
          new_library_def Let_def fmt04_examples)
  note t = example_cache_first_line [where eng = lit_engine and ag = approving_agents
      and ctx = "''ctx''"]
  from t [where st = st_seen and line = "mk_line ''second''"] m1
  have e1: "examples (snd (phase1_step lit_engine approving_agents ''ctx'' (mk_line ''second'') st_seen))
       = (case examples st_seen (template_id (mk_record ''src-0001'' ''.*'' True)) of
               None \<Rightarrow> (examples st_seen)(template_id (mk_record ''src-0001'' ''.*'' True) \<mapsto> mk_line ''second'')
             | Some old \<Rightarrow> examples st_seen)"
    by blast
  then have e1': "examples (snd (phase1_step lit_engine approving_agents ''ctx'' (mk_line ''second'') st_seen))
       = [''src-0001'' \<mapsto> mk_line ''first'']"
    by (simp add: st_seen_def st0_def mk_record_def)
  from t [where st = st0 and line = "mk_line ''a''"] m2 pl out
  have e2: "examples (snd (phase1_step lit_engine approving_agents ''ctx'' (mk_line ''a'') st0)) ''src-0001''
       = Some (mk_line ''a'')"
    by simp
  from pl out have o: "fst (process_line lit_engine approving_agents (mk_line ''a'') ''ctx''
            (st0\<lparr> metrics := increment ''processed_lines'' 1 (metrics st0), library := library st0 \<rparr>))
       = Inr \<lparr> status = ''stored'', outcome_template_id = Some ''src-0001'',
                detail = JStr ''stored without conflict'' \<rparr>"
    by simp
  show ?thesis
    apply (intro conjI)
    apply (fact m1 e1' m2 o e2)+
    done
qed

subsection \<open>Replacing conflicting templates\<close>

lemma deactivate_fields:
  "sequence (deactivate tid l) = sequence l"
  "lib_source_id (deactivate tid l) = lib_source_id l"
  "compiled (deactivate tid l) = compiled l"
  by (simp_all add: deactivate_def split: option.splits)

lemma deactivate_keys: "map fst (templates (deactivate tid l)) = map fst (templates l)"
proof (cases "map_of (templates l) tid")
  case None
  then show ?thesis by (simp add: deactivate_def)
next
  case (Some r)
  then have "tid \<in> fst ` set (templates l)" by (force dest: map_of_SomeD)
  with Some show ?thesis by (simp add: deactivate_def keys_dict_set)
qed









lemma strip_examples: "py_strip '' .* '' = ''.*''" "py_strip ''.*'' = ''.*''"
  by (simp_all add: py_strip_def is_space_def)



text \<open>
  That the next id is not yet in the store holds for every store the pipeline
  works on: loading establishes it for all ids from the sequence on, and \<^verbatim>\<open>add\<close> without an
  id and \<^verbatim>\<open>deactivate\<close> keep it.
\<close>

lemma key_set_dict_set: "fst ` set (dict_set ps k v) = insert k (fst ` set ps)"
proof -
  have "set (map fst (dict_set ps k v)) = insert k (set (map fst ps))"
    unfolding keys_dict_set by force
  then show ?thesis by simp
qed

lemma key_set_deactivate: "fst ` set (templates (deactivate tid l)) = fst ` set (templates l)"
  using arg_cong [OF deactivate_keys [of tid l], of set] by simp

lemma load_loop_keys:
  "load_loop eng recs l = Inr l' \<Longrightarrow>
     fst ` set (templates l') \<subseteq> fst ` set (templates l) \<union> template_id ` set recs"
proof (induction recs arbitrary: l)
  case Nil
  then show ?case by simp
next
  case (Cons r recs)
  from Cons.prems obtain p where p: "re_compile eng (regex r) = Some p"
    by (cases "re_compile eng (regex r)") simp_all
  define l1 where "l1 = l\<lparr>templates := dict_set (templates l) (template_id r) r,
                      compiled := (compiled l)(template_id r \<mapsto> p)\<rparr>"
  have k1: "fst ` set (templates l1) \<subseteq> fst ` set (templates l) \<union> {template_id r}"
    by (simp add: l1_def key_set_dict_set)
  show ?case
  proof (cases "py_int (rsplit_last (template_id r))")
    case None
    with Cons.prems p have "load_loop eng recs l1 = Inr l'" by (simp add: l1_def Let_def)
    from Cons.IH [OF this] k1 show ?thesis by auto
  next
    case (Some k)
    with Cons.prems p have "load_loop eng recs (l1\<lparr>sequence := max (sequence l1) (k + 1)\<rparr>) = Inr l'"
      by (simp add: l1_def Let_def)
    from Cons.IH [OF this] k1 show ?thesis by auto
  qed
qed

lemma load_next_ids_unused:
  assumes "init_library eng src saved = Inr l" and "sequence l \<le> n"
  shows "lib_source_id l @ ''-'' @ fmt04 n \<notin> fst ` set (templates l)"
proof (cases saved)
  case None
  with assms(1) have "templates l = []" by (auto simp: init_library_def new_library_def)
  then show ?thesis by simp
next
  case (Some recs)
  with assms(1) have ll: "load_loop eng recs (new_library src) = Inr l"
    by (simp add: init_library_def)
  from load_loop_seq [OF ll] have seq: "1 \<le> sequence l"
    and below: "\<forall>r\<in>set recs. \<forall>k. py_int (rsplit_last (template_id r)) = Some k \<longrightarrow> k < sequence l"
    by (simp_all add: new_library_def)
  show ?thesis
  proof
    assume "lib_source_id l @ ''-'' @ fmt04 n \<in> fst ` set (templates l)"
    with load_loop_keys [OF ll] obtain r where r: "r \<in> set recs"
      and id: "template_id r = lib_source_id l @ ''-'' @ fmt04 n"
      by (auto simp: new_library_def)
    from seq assms(2) have "0 \<le> n" by simp
    then have "py_int (rsplit_last (template_id r)) = Some n"
      by (simp add: id rsplit_last_append fmt04_no_hyphen fmt04_roundtrip)
    with below r have "n < sequence l" by blast
    with assms(2) show False by simp
  qed
qed

lemma add_next_ids_unused:
  assumes "template_id r = []"
    and "\<forall>n\<ge>sequence l. lib_source_id l @ ''-'' @ fmt04 n \<notin> fst ` set (templates l)"
    and "l' = snd (snd (add eng r l))"
    and "sequence l' \<le> n"
  shows "lib_source_id l' @ ''-'' @ fmt04 n \<notin> fst ` set (templates l')"
proof -
  have seq: "sequence l' = sequence l + 1" and src: "lib_source_id l' = lib_source_id l"
    using assms(1,3) by (simp_all add: add_allocates)
  have keys: "fst ` set (templates l')
      \<subseteq> fst ` set (templates l) \<union> {lib_source_id l @ ''-'' @ fmt04 (sequence l)}"
    using assms(1,3)
    by (cases "re_compile eng (regex r)")
       (simp_all add: add_def allocate_id_def Let_def key_set_dict_set)
  from assms(4) seq have n: "sequence l \<le> n" and ne: "n \<noteq> sequence l" by simp_all
  from ne have "fmt04 n \<noteq> fmt04 (sequence l)" by (blast dest: fmt04_inj)
  show ?thesis
  proof
    assume "lib_source_id l' @ ''-'' @ fmt04 n \<in> fst ` set (templates l')"
    with keys src have "lib_source_id l @ ''-'' @ fmt04 n = lib_source_id l @ ''-'' @ fmt04 (sequence l)
        \<or> lib_source_id l @ ''-'' @ fmt04 n \<in> fst ` set (templates l)"
      by auto
    with \<open>fmt04 n \<noteq> fmt04 (sequence l)\<close> assms(2) n show False by simp
  qed
qed

lemma deactivate_next_ids_unused:
  "lib_source_id l @ ''-'' @ fmt04 n \<notin> fst ` set (templates l) \<Longrightarrow>
     lib_source_id (deactivate tid l) @ ''-'' @ fmt04 n \<notin> fst ` set (templates (deactivate tid l))"
  by (simp add: deactivate_fields key_set_deactivate)

subsection \<open>Invariants of the store\<close>

text \<open>
  The dict invariant that \<^verbatim>\<open>match\<close> is stated under: the keys of \<^verbatim>\<open>templates\<close> stay
  distinct under every operation of the store.
\<close>

lemma dict_set_distinct: "distinct (map fst ps) \<Longrightarrow> distinct (map fst (dict_set ps k v))"
  by (simp add: keys_dict_set)

lemma add_distinct:
  "distinct (map fst (templates l)) \<Longrightarrow> distinct (map fst (templates (snd (snd (add eng r l)))))"
  by (cases "re_compile eng (regex r)")
     (simp_all add: add_def allocate_id_def Let_def dict_set_distinct split: prod.splits)

lemma deactivate_distinct:
  "distinct (map fst (templates l)) \<Longrightarrow> distinct (map fst (templates (deactivate tid l)))"
  by (simp add: deactivate_keys)

lemma load_loop_distinct:
  "load_loop eng recs l = Inr l' \<Longrightarrow> distinct (map fst (templates l))
     \<Longrightarrow> distinct (map fst (templates l'))"
proof (induction recs arbitrary: l)
  case Nil
  then show ?case by simp
next
  case (Cons r recs)
  from Cons.prems(1) obtain p where p: "re_compile eng (regex r) = Some p"
    by (cases "re_compile eng (regex r)") simp_all
  define l1 where "l1 = l\<lparr>templates := dict_set (templates l) (template_id r) r,
                      compiled := (compiled l)(template_id r \<mapsto> p)\<rparr>"
  from Cons.prems(2) have d1: "distinct (map fst (templates l1))"
    by (simp add: l1_def dict_set_distinct)
  show ?case
  proof (cases "py_int (rsplit_last (template_id r))")
    case None
    with Cons.prems(1) p have "load_loop eng recs l1 = Inr l'" by (simp add: l1_def Let_def)
    from Cons.IH [OF this d1] show ?thesis .
  next
    case (Some k)
    with Cons.prems(1) p
    have "load_loop eng recs (l1\<lparr>sequence := max (sequence l1) (k + 1)\<rparr>) = Inr l'"
      by (simp add: l1_def Let_def)
    from Cons.IH [OF this] d1 show ?thesis by simp
  qed
qed

text \<open>
  The same through \<^verbatim>\<open>process_line\<close>: the line \<^verbatim>\<open>b\<close> misses the store, the proposed pattern
  conflicts with the example of \<^verbatim>\<open>src-0001\<close>, and the adjudicator's plan is applied.
\<close>

lemma replaced_id_active_in_pipeline:
  "detect_conflicts lit_engine ''.*'' (library st_conflict) (examples st_conflict)
     = [(mk_record ''src-0001'' ''a'' True, ''a'')]
   \<and> fst (process_line lit_engine replacing_agents (mk_line ''b'') ''ctx'' st_conflict)
       = Inr \<lparr> status = ''replaced'', outcome_template_id = Some ''src-0002'', detail = JStr [] \<rparr>
   \<and> templates (library (snd (process_line lit_engine replacing_agents (mk_line ''b'') ''ctx''
          st_conflict)))
       = [(''src-0001'', mk_record ''src-0001'' ''a'' False),
          (''src-0002'', \<lparr> template_id = ''src-0002'', source_id = ''src'', regex = ''.*'',
                            rec_notes = ''why'', is_active = True \<rparr>)]
   \<and> examples (snd (process_line lit_engine replacing_agents (mk_line ''b'') ''ctx'' st_conflict))
        ''src-0002'' = Some (mk_line ''b'')"
proof -
  have dc: "detect_conflicts lit_engine ''.*'' (library st_conflict) (examples st_conflict)
     = [(mk_record ''src-0001'' ''a'' True, ''a'')]"
    by (simp add: detect_conflicts_def st_conflict_def st0_def lit_engine_def mk_line_def
          mk_record_def)
  show ?thesis
    by (simp add: dc)
       (simp add: process_line_def after_review_def resolve_conflict_def detect_conflicts_def
          apply_conflict_plan_def plan_replace_next_def usable_regex_def strip_examples
          replacing_agents_def scripted_def st_conflict_def st0_def replaced_id_list_def
          deactivate_def store_candidate_def add_def allocate_id_def lit_engine_def mk_record_def
          mk_line_def increment_def fmt04_examples Let_def)
qed

end
